theory Spec2Isabelle
  imports Main
begin

section \<open>InsuraPro CRM: records, codec, store and search\<close>

text \<open>
  A shallow embedding of \<^verbatim>\<open>insurapro\<close> (interazione.h/.cpp, cliente.h/.cpp,
  gestione_errori.cpp, crm.h/.cpp). A \<^verbatim>\<open>std::string\<close> is a \<open>string\<close> (a list of
  bytes), a \<^verbatim>\<open>std::vector\<close> is a list, the private member \<^verbatim>\<open>CRM::clienti\<close> is passed
  in and returned. The strings that the interactive methods read with
  \<^verbatim>\<open>ottieniInputSicuro\<close> are parameters, in the order they are read. The messages the
  \<^verbatim>\<open>void\<close> methods print are abstracted to an outcome value. Indices are \<^verbatim>\<open>int\<close> in the
  source and \<open>int\<close> here; vectors are taken to hold fewer than \<open>2^31\<close> elements, so the
  casts \<^verbatim>\<open>(int)i\<close> and \<^verbatim>\<open>(int)interazioni.size()\<close> do not wrap.
\<close>

subsection \<open>interazione.h, interazione.cpp\<close>

datatype TipoInterazione = APPUNTAMENTO | CONTRATTO | TELEFONATA | EMAIL | ALTRO

record Interazione =
  data :: string
  ora :: string
  tipo :: TipoInterazione
  descrizione :: string
  agente :: string
  risultato :: string

text \<open>The parametric constructor \<^verbatim>\<open>Interazione::Interazione(data, ora, tipo, ...)\<close>.\<close>

definition nuovaInterazione ::
  "string \<Rightarrow> string \<Rightarrow> TipoInterazione \<Rightarrow> string \<Rightarrow> string \<Rightarrow> string \<Rightarrow> Interazione" where
  "nuovaInterazione d o' t de a r =
     \<lparr>data = d, ora = o', tipo = t, descrizione = de, agente = a, risultato = r\<rparr>"

text \<open>\<^verbatim>\<open>Interazione::getTipoStringa\<close>, the \<^verbatim>\<open>if\<close> chain in the source's order.\<close>

definition getTipoStringa :: "Interazione \<Rightarrow> string" where
  "getTipoStringa i =
     (if tipo i = APPUNTAMENTO then ''Appuntamento''
      else if tipo i = CONTRATTO then ''Contratto''
      else if tipo i = TELEFONATA then ''Telefonata''
      else if tipo i = EMAIL then ''Email''
      else if tipo i = ALTRO then ''Altro''
      else ''Sconosciuto'')"

subsection \<open>cliente.h, cliente.cpp\<close>

record Cliente =
  nome :: string
  cognome :: string
  email :: string
  telefono :: string
  indirizzo :: string
  codiceFiscale :: string
  dataNascita :: string
  interazioni :: "Interazione list"

text \<open>The parametric constructor; the vector of interactions starts empty.\<close>

definition nuovoCliente ::
  "string \<Rightarrow> string \<Rightarrow> string \<Rightarrow> string \<Rightarrow> string \<Rightarrow> string \<Rightarrow> string \<Rightarrow> Cliente" where
  "nuovoCliente n c e t i cf dn =
     \<lparr>nome = n, cognome = c, email = e, telefono = t, indirizzo = i,
      codiceFiscale = cf, dataNascita = dn, interazioni = []\<rparr>"

text \<open>\<^verbatim>\<open>Cliente::aggiungiInterazione\<close>: \<^verbatim>\<open>push_back\<close>.\<close>

definition aggiungiInterazione :: "Cliente \<Rightarrow> Interazione \<Rightarrow> Cliente" where
  "aggiungiInterazione c i = c\<lparr>interazioni := interazioni c @ [i]\<rparr>"

text \<open>
  \<^verbatim>\<open>Cliente::rimuoviInterazione(int indice)\<close>: erases the element at \<^verbatim>\<open>indice\<close> when
  \<^verbatim>\<open>indice >= 0 && indice < (int)interazioni.size()\<close>, and does nothing otherwise.
\<close>

definition rimuoviInterazione :: "Cliente \<Rightarrow> int \<Rightarrow> Cliente" where
  "rimuoviInterazione c indice =
     (if 0 \<le> indice \<and> indice < int (length (interazioni c))
      then c\<lparr>interazioni :=
               take (nat indice) (interazioni c) @ drop (Suc (nat indice)) (interazioni c)\<rparr>
      else c)"

subsection \<open>The decoding of the kind field in \<^verbatim>\<open>CRM::caricaDati\<close> (crm.cpp, lines 286-291)\<close>

definition tipoDaStringa :: "string \<Rightarrow> TipoInterazione" where
  "tipoDaStringa s =
     (if s = ''Appuntamento'' then APPUNTAMENTO
      else if s = ''Contratto'' then CONTRATTO
      else if s = ''Telefonata'' then TELEFONATA
      else if s = ''Email'' then EMAIL
      else if s = ''Altro'' then ALTRO
      else ALTRO)"

subsection \<open>Searching in a customer (\<^verbatim>\<open>Cliente::contieneStringa\<close>)\<close>

text \<open>
  \<^verbatim>\<open>::tolower\<close> in the C locale: the letters \<open>A\<close> to \<open>Z\<close> go to \<open>a\<close> to \<open>z\<close>,
  every other byte is returned as it is.
\<close>

definition tolower :: "char \<Rightarrow> char" where
  "tolower c =
     (case map_of (zip ''ABCDEFGHIJKLMNOPQRSTUVWXYZ'' ''abcdefghijklmnopqrstuvwxyz'') c of
        None \<Rightarrow> c
      | Some l \<Rightarrow> l)"

text \<open>
  \<^verbatim>\<open>std::string::find(str)\<close>: the position of the first occurrence of \<open>t\<close> in \<open>s\<close>,
  or \<open>None\<close> for \<^verbatim>\<open>npos\<close>. The empty string is found at position 0.
\<close>

fun string_find :: "string \<Rightarrow> string \<Rightarrow> nat option" where
  "string_find [] t = (if t = [] then Some 0 else None)"
| "string_find (c # s) t =
     (if take (length t) (c # s) = t then Some 0 else map_option Suc (string_find s t))"

definition contieneStringa :: "Cliente \<Rightarrow> string \<Rightarrow> bool" where
  "contieneStringa c ricerca =
     (let ricercaLower = map tolower ricerca;
          nomeLower = map tolower (nome c);
          cognomeLower = map tolower (cognome c);
          emailLower = map tolower (email c);
          telefonoLower = map tolower (telefono c)
      in if string_find nomeLower ricercaLower \<noteq> None then True
         else if string_find cognomeLower ricercaLower \<noteq> None then True
         else if string_find emailLower ricercaLower \<noteq> None then True
         else if string_find telefonoLower ricercaLower \<noteq> None then True
         else if string_find (codiceFiscale c) ricerca \<noteq> None then True
         else False)"

subsection \<open>gestione_errori.cpp and the lookups of crm.cpp\<close>

text \<open>The outcome of a store operation: the message it prints, by the spec's names.\<close>

datatype esito = Successo | DuplicateKey | NotFound

text \<open>
  \<^verbatim>\<open>CRM::trovaCliente(codiceFiscale)\<close> and \<^verbatim>\<open>controllaEsistenzaCliente\<close> run the same
  scan: the index of the first customer with that tax code, or \<open>-1\<close>.
\<close>

fun trovaCliente_da :: "nat \<Rightarrow> Cliente list \<Rightarrow> string \<Rightarrow> int" where
  "trovaCliente_da i [] cf = -1"
| "trovaCliente_da i (c # cs) cf =
     (if codiceFiscale c = cf then int i else trovaCliente_da (Suc i) cs cf)"

definition trovaCliente :: "Cliente list \<Rightarrow> string \<Rightarrow> int" where
  "trovaCliente clienti cf = trovaCliente_da 0 clienti cf"

fun controllaEsistenzaCliente_da :: "nat \<Rightarrow> Cliente list \<Rightarrow> string \<Rightarrow> int" where
  "controllaEsistenzaCliente_da i [] cf = -1"
| "controllaEsistenzaCliente_da i (c # cs) cf =
     (if codiceFiscale c = cf then int i else controllaEsistenzaCliente_da (Suc i) cs cf)"

definition controllaEsistenzaCliente :: "Cliente list \<Rightarrow> string \<Rightarrow> int" where
  "controllaEsistenzaCliente clienti cf = controllaEsistenzaCliente_da 0 clienti cf"

subsection \<open>Store operations of crm.cpp\<close>

text \<open>
  \<^verbatim>\<open>CRM::aggiungiCliente\<close>: the seven strings are read first, then the duplicate check,
  then \<^verbatim>\<open>push_back\<close>.
\<close>

definition aggiungiCliente ::
  "string \<Rightarrow> string \<Rightarrow> string \<Rightarrow> string \<Rightarrow> string \<Rightarrow> string \<Rightarrow> string
   \<Rightarrow> Cliente list \<Rightarrow> esito \<times> Cliente list" where
  "aggiungiCliente n c e t i cf dn clienti =
     (if trovaCliente clienti cf \<noteq> -1 then (DuplicateKey, clienti)
      else (Successo, clienti @ [nuovoCliente n c e t i cf dn]))"

text \<open>
  \<^verbatim>\<open>CRM::modificaCliente\<close>: the tax code is read, the customer looked up, and each of
  the six new values is assigned only when it is not empty.
\<close>

definition modificaCliente ::
  "string \<Rightarrow> string \<Rightarrow> string \<Rightarrow> string \<Rightarrow> string \<Rightarrow> string \<Rightarrow> string
   \<Rightarrow> Cliente list \<Rightarrow> esito \<times> Cliente list" where
  "modificaCliente cf nuovoNome nuovoCognome nuovaEmail nuovoTelefono nuovoIndirizzo
       nuovaDataNascita clienti =
     (if clienti = [] then (NotFound, clienti)
      else let indice = controllaEsistenzaCliente clienti cf in
        if indice = -1 then (NotFound, clienti)
        else
          let k = nat indice;
              c1 = (if nuovoNome \<noteq> [] then clienti[k := (clienti ! k)\<lparr>nome := nuovoNome\<rparr>]
                    else clienti);
              c2 = (if nuovoCognome \<noteq> [] then c1[k := (c1 ! k)\<lparr>cognome := nuovoCognome\<rparr>]
                    else c1);
              c3 = (if nuovaEmail \<noteq> [] then c2[k := (c2 ! k)\<lparr>email := nuovaEmail\<rparr>]
                    else c2);
              c4 = (if nuovoTelefono \<noteq> [] then c3[k := (c3 ! k)\<lparr>telefono := nuovoTelefono\<rparr>]
                    else c3);
              c5 = (if nuovoIndirizzo \<noteq> []
                    then c4[k := (c4 ! k)\<lparr>indirizzo := nuovoIndirizzo\<rparr>] else c4);
              c6 = (if nuovaDataNascita \<noteq> []
                    then c5[k := (c5 ! k)\<lparr>dataNascita := nuovaDataNascita\<rparr>] else c5)
          in (Successo, c6))"

text \<open>
  Modelled from the spec: \<^verbatim>\<open>CRM::eliminaInterazione\<close> is declared in crm.h (line 35) and
  has no body in the repository. By the spec, \<open>removeInteraction(code, position)\<close> fails
  with NotFound if the customer is missing or the position is out of the list's valid
  range, and otherwise removes at that position. The lookup and the removal are the
  source's \<^verbatim>\<open>controllaEsistenzaCliente\<close> and \<^verbatim>\<open>Cliente::rimuoviInterazione\<close>.
\<close>

definition eliminaInterazione :: "string \<Rightarrow> int \<Rightarrow> Cliente list \<Rightarrow> esito \<times> Cliente list" where
  "eliminaInterazione cf posizione clienti =
     (let indice = controllaEsistenzaCliente clienti cf in
      if indice = -1 then (NotFound, clienti)
      else if \<not> (0 \<le> posizione
                 \<and> posizione < int (length (interazioni (clienti ! nat indice))))
      then (NotFound, clienti)
      else (Successo,
            clienti[nat indice := rimuoviInterazione (clienti ! nat indice) posizione]))"

text \<open>
  \<^verbatim>\<open>CRM::cercaCliente\<close>: what it prints, as the list of the printed number \<open>i + 1\<close>
  and the customer, for every customer that contains the search term.
\<close>

fun cercaCliente_da :: "nat \<Rightarrow> Cliente list \<Rightarrow> string \<Rightarrow> (nat \<times> Cliente) list" where
  "cercaCliente_da i [] ricerca = []"
| "cercaCliente_da i (c # cs) ricerca =
     (if contieneStringa c ricerca then (i + 1, c) # cercaCliente_da (Suc i) cs ricerca
      else cercaCliente_da (Suc i) cs ricerca)"

definition cercaCliente :: "string \<Rightarrow> Cliente list \<Rightarrow> (nat \<times> Cliente) list" where
  "cercaCliente ricerca clienti =
     (if clienti = [] then [] else cercaCliente_da 0 clienti ricerca)"

subsection \<open>\<^verbatim>\<open>CRM::salvaDati\<close>\<close>

text \<open>The two lines written with \<^verbatim>\<open><<\<close>, without the final newline.\<close>

definition riga_cliente :: "Cliente \<Rightarrow> string" where
  "riga_cliente c =
     nome c @ ''|'' @ cognome c @ ''|'' @ email c @ ''|'' @ telefono c @ ''|''
     @ indirizzo c @ ''|'' @ codiceFiscale c @ ''|'' @ dataNascita c"

definition riga_interazione :: "string \<Rightarrow> Interazione \<Rightarrow> string" where
  "riga_interazione cf i =
     cf @ ''|'' @ data i @ ''|'' @ ora i @ ''|'' @ getTipoStringa i @ ''|''
     @ descrizione i @ ''|'' @ agente i @ ''|'' @ risultato i"

text \<open>The inner loop over the interactions of one customer; \<open>out\<close> is what the stream holds.\<close>

fun scrivi_interazioni :: "string \<Rightarrow> Interazione list \<Rightarrow> string \<Rightarrow> string" where
  "scrivi_interazioni cf [] out = out"
| "scrivi_interazioni cf (i # is) out =
     scrivi_interazioni cf is (out @ riga_interazione cf i @ [CHR 0x0A])"

text \<open>The outer loop: one line to the customer stream, then the customer's interactions.\<close>

fun scrivi_clienti :: "Cliente list \<Rightarrow> string \<Rightarrow> string \<Rightarrow> string \<times> string" where
  "scrivi_clienti [] outC outI = (outC, outI)"
| "scrivi_clienti (c # cs) outC outI =
     scrivi_clienti cs (outC @ riga_cliente c @ [CHR 0x0A])
       (scrivi_interazioni (codiceFiscale c) (interazioni c) outI)"

text \<open>
  A file is \<open>Some\<close> of its contents, or \<open>None\<close> when it cannot be opened for reading.
  \<open>apreC\<close> and \<open>apreI\<close> say whether each \<^verbatim>\<open>std::ofstream\<close> opens; a stream that opens
  truncates its file, also when the other one fails and \<^verbatim>\<open>salvaDati\<close> returns false.
\<close>

definition salvaDati ::
  "bool \<Rightarrow> bool \<Rightarrow> Cliente list \<Rightarrow> string option \<times> string option
   \<Rightarrow> bool \<times> string option \<times> string option" where
  "salvaDati apreC apreI clienti files =
     (if \<not> apreC \<or> \<not> apreI
      then (False, (if apreC then Some [] else fst files), (if apreI then Some [] else snd files))
      else (True, Some (fst (scrivi_clienti clienti [] [])),
                  Some (snd (scrivi_clienti clienti [] []))))"

subsection \<open>\<^verbatim>\<open>CRM::caricaDati\<close>\<close>

text \<open>
  \<^verbatim>\<open>std::getline\<close>: at the end of the stream nothing is extracted and the call fails;
  otherwise it returns the bytes before the first newline (or all of them) and leaves
  the stream after that newline.
\<close>

fun getline :: "string \<Rightarrow> (string \<times> string) option" where
  "getline [] = None"
| "getline (c # s) =
     Some (takeWhile (\<lambda>x. x \<noteq> CHR 0x0A) (c # s),
           drop 1 (dropWhile (\<lambda>x. x \<noteq> CHR 0x0A) (c # s)))"

lemma getline_shorter:
  assumes "getline s = Some (l, r)"
  shows "length r < length s"
proof (cases s)
  case Nil
  with assms show ?thesis by simp
next
  case (Cons c s')
  have "length (dropWhile (\<lambda>x. x \<noteq> CHR 0x0A) s') \<le> length s'"
    by (rule length_dropWhile_le)
  with assms Cons show ?thesis by (auto split: if_splits)
qed

text \<open>The lines that the successive calls of \<^verbatim>\<open>while (getline(file, linea))\<close> return.\<close>

function leggi_linee :: "string \<Rightarrow> string list" where
  "leggi_linee s = (case getline s of None \<Rightarrow> [] | Some (l, r) \<Rightarrow> l # leggi_linee r)"
  by pat_completeness auto
termination
  by (relation "measure length") (auto dest: getline_shorter)

declare leggi_linee.simps [simp del]

text \<open>The splitting loop over the bytes of a line, and the \<^verbatim>\<open>push_back\<close> after it.\<close>

fun dividi_da :: "string \<Rightarrow> string list \<Rightarrow> string \<Rightarrow> string list" where
  "dividi_da [] dati campo = dati @ [campo]"
| "dividi_da (c # linea) dati campo =
     (if c = CHR ''|'' then dividi_da linea (dati @ [campo]) []
      else dividi_da linea dati (campo @ [c]))"

definition dividi :: "string \<Rightarrow> string list" where
  "dividi linea = dividi_da linea [] []"

text \<open>The customer built from the seven fields of a line (crm.cpp, line 266).\<close>

definition cliente_da_campi :: "string list \<Rightarrow> Cliente" where
  "cliente_da_campi dati =
     nuovoCliente (dati ! 0) (dati ! 1) (dati ! 2) (dati ! 3) (dati ! 4) (dati ! 5) (dati ! 6)"

text \<open>The first loop of \<^verbatim>\<open>caricaDati\<close>, over the lines of the customer file.\<close>

fun carica_clienti :: "string list \<Rightarrow> Cliente list \<Rightarrow> Cliente list" where
  "carica_clienti [] clienti = clienti"
| "carica_clienti (linea # linee) clienti =
     (if linea = [] then carica_clienti linee clienti
      else let dati = dividi linea in
        if length dati = 7
        then carica_clienti linee (clienti @ [cliente_da_campi dati])
        else carica_clienti linee clienti)"

text \<open>
  The innermost loop of the second part: the interaction goes to the first customer
  with the tax code, and the loop stops there (\<^verbatim>\<open>break\<close>).
\<close>

fun aggiungi_al_primo :: "string \<Rightarrow> Interazione \<Rightarrow> Cliente list \<Rightarrow> Cliente list" where
  "aggiungi_al_primo cf i [] = []"
| "aggiungi_al_primo cf i (c # cs) =
     (if codiceFiscale c = cf then aggiungiInterazione c i # cs
      else c # aggiungi_al_primo cf i cs)"

text \<open>The interaction built from the seven fields of a line (crm.cpp, lines 285-292).\<close>

definition interazione_da_campi :: "string list \<Rightarrow> Interazione" where
  "interazione_da_campi dati =
     nuovaInterazione (dati ! 1) (dati ! 2) (tipoDaStringa (dati ! 3)) (dati ! 4) (dati ! 5)
       (dati ! 6)"

text \<open>The second loop of \<^verbatim>\<open>caricaDati\<close>, over the lines of the interaction file.\<close>

fun carica_interazioni :: "string list \<Rightarrow> Cliente list \<Rightarrow> Cliente list" where
  "carica_interazioni [] clienti = clienti"
| "carica_interazioni (linea # linee) clienti =
     (if linea = [] then carica_interazioni linee clienti
      else let dati = dividi linea in
        if length dati = 7
        then carica_interazioni linee
               (aggiungi_al_primo (dati ! 0) (interazione_da_campi dati) clienti)
        else carica_interazioni linee clienti)"

text \<open>
  \<^verbatim>\<open>CRM::caricaDati\<close>: both streams are opened, the method returns false when one of
  them failed, and only then clears the vector and reads.
\<close>

definition caricaDati ::
  "string option \<Rightarrow> string option \<Rightarrow> Cliente list \<Rightarrow> bool \<times> Cliente list" where
  "caricaDati fileClienti fileInterazioni clienti =
     (case fileClienti of
        None \<Rightarrow> (False, clienti)
      | Some fc \<Rightarrow>
         (case fileInterazioni of
            None \<Rightarrow> (False, clienti)
          | Some fi \<Rightarrow>
              (True, carica_interazioni (leggi_linee fi) (carica_clienti (leggi_linee fc) []))))"

subsection \<open>The records of a file\<close>

text \<open>
  For the statements about \<^verbatim>\<open>caricaDati\<close>: the field lists of the lines of a file that
  pass the two checks of its loops (\<^verbatim>\<open>linea.empty()\<close> and \<^verbatim>\<open>dati.size() == 7\<close>), in
  file order.
\<close>

definition campi_letti :: "string \<Rightarrow> string list list" where
  "campi_letti file =
     filter (\<lambda>dati. length dati = 7) (map dividi (filter (\<lambda>linea. linea \<noteq> []) (leggi_linee file)))"

subsection \<open>Fields that the file format can carry\<close>

text \<open>
  For the statement about saving and loading: a field with no separator byte and no
  newline byte in it, an interaction whose five strings are such fields, and a customer
  whose seven strings and whose interactions are.
\<close>

definition campo_pulito :: "string \<Rightarrow> bool" where
  "campo_pulito s = (CHR ''|'' \<notin> set s \<and> CHR 0x0A \<notin> set s)"

definition interazione_pulita :: "Interazione \<Rightarrow> bool" where
  "interazione_pulita i =
     (campo_pulito (data i) \<and> campo_pulito (ora i) \<and> campo_pulito (descrizione i)
      \<and> campo_pulito (agente i) \<and> campo_pulito (risultato i))"

definition cliente_pulito :: "Cliente \<Rightarrow> bool" where
  "cliente_pulito c =
     (campo_pulito (nome c) \<and> campo_pulito (cognome c) \<and> campo_pulito (email c)
      \<and> campo_pulito (telefono c) \<and> campo_pulito (indirizzo c)
      \<and> campo_pulito (codiceFiscale c) \<and> campo_pulito (dataNascita c)
      \<and> list_all interazione_pulita (interazioni c))"


section \<open>The kind codec\<close>

text \<open>
  C8, as stated, does not hold: the display strings of the code are the Italian ones.
  The English string \<open>''Call''\<close> is not recognised (it decodes to the default
  \<open>ALTRO\<close>), and the kind \<open>TELEFONATA\<close> is displayed as \<open>''Telefonata''\<close>, not
  as \<open>''Call''\<close>.
\<close>

theorem C8_english_strings_counterexample:
  "tipoDaStringa ''Call'' = ALTRO
   \<and> tipoDaStringa ''Appointment'' = ALTRO
   \<and> getTipoStringa (nuovaInterazione [] [] TELEFONATA [] [] []) \<noteq> ''Call''
   \<and> getTipoStringa (nuovaInterazione [] [] APPUNTAMENTO [] [] []) \<noteq> ''Appointment''"
  by (simp add: tipoDaStringa_def getTipoStringa_def nuovaInterazione_def)

text \<open>
  C8 (amended): decoding maps the kind field by a fixed case-sensitive table whose
  recognised display strings are exactly \<open>''Appuntamento''\<close>, \<open>''Contratto''\<close>,
  \<open>''Telefonata''\<close>, \<open>''Email''\<close> and \<open>''Altro''\<close>; every other string decodes to
  \<open>ALTRO\<close>; and decoding the display string of an interaction gives back its kind.
\<close>

theorem C8_tipo_codec:
  "tipoDaStringa ''Appuntamento'' = APPUNTAMENTO
   \<and> tipoDaStringa ''Contratto'' = CONTRATTO
   \<and> tipoDaStringa ''Telefonata'' = TELEFONATA
   \<and> tipoDaStringa ''Email'' = EMAIL
   \<and> tipoDaStringa ''Altro'' = ALTRO
   \<and> (s \<notin> {''Appuntamento'', ''Contratto'', ''Telefonata'', ''Email'', ''Altro''}
        \<longrightarrow> tipoDaStringa s = ALTRO)
   \<and> (tipoDaStringa s \<noteq> ALTRO
        \<longrightarrow> s \<in> {''Appuntamento'', ''Contratto'', ''Telefonata'', ''Email''})
   \<and> tipoDaStringa (getTipoStringa i) = tipo i
   \<and> getTipoStringa i \<in> {''Appuntamento'', ''Contratto'', ''Telefonata'', ''Email'', ''Altro''}"
proof -
  have dec: "tipoDaStringa ''Appuntamento'' = APPUNTAMENTO"
    "tipoDaStringa ''Contratto'' = CONTRATTO"
    "tipoDaStringa ''Telefonata'' = TELEFONATA"
    "tipoDaStringa ''Email'' = EMAIL"
    "tipoDaStringa ''Altro'' = ALTRO"
    by (simp_all add: tipoDaStringa_def)
  have other: "s \<notin> {''Appuntamento'', ''Contratto'', ''Telefonata'', ''Email'', ''Altro''}
      \<longrightarrow> tipoDaStringa s = ALTRO"
    by (simp add: tipoDaStringa_def)
  have only: "tipoDaStringa s \<noteq> ALTRO
      \<longrightarrow> s \<in> {''Appuntamento'', ''Contratto'', ''Telefonata'', ''Email''}"
    by (simp add: tipoDaStringa_def)
  have rt: "tipoDaStringa (getTipoStringa i) = tipo i
      \<and> getTipoStringa i \<in> {''Appuntamento'', ''Contratto'', ''Telefonata'', ''Email'', ''Altro''}"
    by (cases "tipo i") (simp_all add: getTipoStringa_def dec)
  from dec other only rt show ?thesis by blast
qed

theorem C8_tipo_codec_witness:
  "''email'' \<notin> {''Appuntamento'', ''Contratto'', ''Telefonata'', ''Email'', ''Altro''}
   \<and> tipoDaStringa ''email'' = ALTRO
   \<and> tipoDaStringa ''Contratto'' \<noteq> ALTRO
   \<and> ''Contratto'' \<in> {''Appuntamento'', ''Contratto'', ''Telefonata'', ''Email''}"
  using C8_tipo_codec [where s = "''email''"] C8_tipo_codec [where s = "''Contratto''"]
  by simp

section \<open>Lookup by tax code\<close>

lemma trovaCliente_da_assente:
  "(trovaCliente_da i cs cf = -1) = (\<forall>x\<in>set cs. codiceFiscale x \<noteq> cf)"
  by (induction cs arbitrary: i) auto

lemma trovaCliente_da_primo:
  "k < length cs \<Longrightarrow> codiceFiscale (cs ! k) = cf \<Longrightarrow> \<forall>j<k. codiceFiscale (cs ! j) \<noteq> cf
   \<Longrightarrow> trovaCliente_da i cs cf = int (i + k)"
proof (induction cs arbitrary: i k)
  case Nil
  then show ?case by simp
next
  case (Cons c cs)
  show ?case
  proof (cases k)
    case 0
    with Cons.prems show ?thesis by simp
  next
    case (Suc k')
    from Cons.prems Suc have "codiceFiscale c \<noteq> cf" by auto
    moreover have "trovaCliente_da (Suc i) cs cf = int (Suc i + k')"
      using Cons.prems Suc by (intro Cons.IH) auto
    ultimately show ?thesis using Suc by simp
  qed
qed

lemma controllaEsistenzaCliente_da_eq:
  "controllaEsistenzaCliente_da i cs cf = trovaCliente_da i cs cf"
  by (induction cs arbitrary: i) auto

lemma controllaEsistenzaCliente_eq:
  "controllaEsistenzaCliente cs cf = trovaCliente cs cf"
  by (simp add: controllaEsistenzaCliente_def trovaCliente_def controllaEsistenzaCliente_da_eq)

lemma trovaCliente_assente:
  "(trovaCliente cs cf = -1) = (\<forall>x\<in>set cs. codiceFiscale x \<noteq> cf)"
  by (simp add: trovaCliente_def trovaCliente_da_assente)

lemma trovaCliente_primo:
  "k < length cs \<Longrightarrow> codiceFiscale (cs ! k) = cf \<Longrightarrow> \<forall>j<k. codiceFiscale (cs ! j) \<noteq> cf
   \<Longrightarrow> trovaCliente cs cf = int k"
  using trovaCliente_da_primo [of k cs cf 0] by (simp add: trovaCliente_def)

lemma controllaEsistenzaCliente_primo:
  "k < length cs \<Longrightarrow> codiceFiscale (cs ! k) = cf \<Longrightarrow> \<forall>j<k. codiceFiscale (cs ! j) \<noteq> cf
   \<Longrightarrow> controllaEsistenzaCliente cs cf = int k"
  by (simp add: controllaEsistenzaCliente_eq trovaCliente_primo)

lemma controllaEsistenzaCliente_assente:
  "(controllaEsistenzaCliente cs cf = -1) = (\<forall>x\<in>set cs. codiceFiscale x \<noteq> cf)"
  by (simp add: controllaEsistenzaCliente_eq trovaCliente_assente)

section \<open>Adding a customer\<close>

text \<open>
  C3: if some customer of the store already has the tax code, \<open>aggiungiCliente\<close> fails
  with \<open>DuplicateKey\<close> and the collection is unchanged; otherwise it succeeds and the
  new collection is the old one with the new customer (the seven fields read, no
  interactions) appended at the end.
\<close>

theorem C3_aggiungiCliente:
  "((\<exists>x\<in>set clienti. codiceFiscale x = cf)
      \<longrightarrow> aggiungiCliente n c e t i cf dn clienti = (DuplicateKey, clienti))
   \<and> ((\<forall>x\<in>set clienti. codiceFiscale x \<noteq> cf)
      \<longrightarrow> aggiungiCliente n c e t i cf dn clienti
          = (Successo, clienti @ [nuovoCliente n c e t i cf dn]))"
  by (simp add: aggiungiCliente_def trovaCliente_assente)

text \<open>Both branches on a store with one customer.\<close>

theorem C3_aggiungiCliente_witness:
  "(\<exists>x\<in>set [nuovoCliente ''Anna'' ''Rossi'' [] [] [] ''RSS'' []]. codiceFiscale x = ''RSS'')
   \<and> aggiungiCliente ''Ugo'' ''Bianchi'' [] [] [] ''RSS'' []
        [nuovoCliente ''Anna'' ''Rossi'' [] [] [] ''RSS'' []]
      = (DuplicateKey, [nuovoCliente ''Anna'' ''Rossi'' [] [] [] ''RSS'' []])
   \<and> \<not> (\<exists>x\<in>set [nuovoCliente ''Anna'' ''Rossi'' [] [] [] ''RSS'' []]. codiceFiscale x = ''BNC'')
   \<and> aggiungiCliente ''Ugo'' ''Bianchi'' [] [] [] ''BNC'' []
        [nuovoCliente ''Anna'' ''Rossi'' [] [] [] ''RSS'' []]
      = (Successo, [nuovoCliente ''Anna'' ''Rossi'' [] [] [] ''RSS'' [],
                    nuovoCliente ''Ugo'' ''Bianchi'' [] [] [] ''BNC'' []])"
  using C3_aggiungiCliente [of "[nuovoCliente ''Anna'' ''Rossi'' [] [] [] ''RSS'' []]" "''RSS''"
          "''Ugo''" "''Bianchi''" "[]" "[]" "[]" "[]"]
        C3_aggiungiCliente [of "[nuovoCliente ''Anna'' ''Rossi'' [] [] [] ''RSS'' []]" "''BNC''"
          "''Ugo''" "''Bianchi''" "[]" "[]" "[]" "[]"]
  by (simp add: nuovoCliente_def)

section \<open>A load that cannot open its files\<close>

text \<open>
  C10: if the customer file or the interaction file cannot be opened for reading,
  \<open>caricaDati\<close> returns false and the collection is exactly the one before the call.
  When both open, the load succeeds and its result does not depend on the collection
  before the call: the vector is cleared only then.
\<close>

theorem C10_caricaDati_fallito:
  "((fileClienti = None \<or> fileInterazioni = None)
      \<longrightarrow> caricaDati fileClienti fileInterazioni clienti = (False, clienti))
   \<and> caricaDati (Some fc) (Some fi) clienti = caricaDati (Some fc) (Some fi) []
   \<and> fst (caricaDati (Some fc) (Some fi) clienti)"
  by (auto simp: caricaDati_def split: option.splits)

text \<open>A store with one customer survives a load with either file missing.\<close>

theorem C10_caricaDati_fallito_witness:
  "caricaDati None (Some ''a|b|c|d|e|f|g'') [nuovoCliente ''Anna'' ''Rossi'' [] [] [] ''RSS'' []]
     = (False, [nuovoCliente ''Anna'' ''Rossi'' [] [] [] ''RSS'' []])
   \<and> caricaDati (Some ''a|b|c|d|e|f|g'') None [nuovoCliente ''Anna'' ''Rossi'' [] [] [] ''RSS'' []]
     = (False, [nuovoCliente ''Anna'' ''Rossi'' [] [] [] ''RSS'' []])"
  using C10_caricaDati_fallito [of None "Some ''a|b|c|d|e|f|g''"
          "[nuovoCliente ''Anna'' ''Rossi'' [] [] [] ''RSS'' []]" "[]" "[]"]
        C10_caricaDati_fallito [of "Some ''a|b|c|d|e|f|g''" None 
          "[nuovoCliente ''Anna'' ''Rossi'' [] [] [] ''RSS'' []]" "[]" "[]"]
  by simp

section \<open>Updating a customer\<close>

text \<open>
  C7: for a store that holds a customer with the tax code (the first such customer is at
  position \<open>k\<close>), \<open>modificaCliente\<close> overwrites exactly those of the fields name,
  surname, e-mail, phone, address and birth date that were entered non-empty; a field
  entered as the empty string keeps its value. The tax code and the interactions of the
  customer and all other customers are unchanged, and no field that was non-empty
  becomes empty.
\<close>

theorem C7_modificaCliente:
  assumes "k < length clienti"
    and "codiceFiscale (clienti ! k) = cf"
    and "\<forall>j<k. codiceFiscale (clienti ! j) \<noteq> cf"
  shows "modificaCliente cf nn nc ne nt ni nd clienti =
           (Successo,
            clienti[k := (clienti ! k)
              \<lparr>nome := (if nn = [] then nome (clienti ! k) else nn),
               cognome := (if nc = [] then cognome (clienti ! k) else nc),
               email := (if ne = [] then email (clienti ! k) else ne),
               telefono := (if nt = [] then telefono (clienti ! k) else nt),
               indirizzo := (if ni = [] then indirizzo (clienti ! k) else ni),
               dataNascita := (if nd = [] then dataNascita (clienti ! k) else nd)\<rparr>])
         \<and> (\<forall>clienti'. modificaCliente cf nn nc ne nt ni nd clienti = (Successo, clienti') \<longrightarrow>
               length clienti' = length clienti
             \<and> (\<forall>j<length clienti. j \<noteq> k \<longrightarrow> clienti' ! j = clienti ! j)
             \<and> codiceFiscale (clienti' ! k) = codiceFiscale (clienti ! k)
             \<and> interazioni (clienti' ! k) = interazioni (clienti ! k)
             \<and> (nome (clienti ! k) \<noteq> [] \<longrightarrow> nome (clienti' ! k) \<noteq> [])
             \<and> (cognome (clienti ! k) \<noteq> [] \<longrightarrow> cognome (clienti' ! k) \<noteq> [])
             \<and> (email (clienti ! k) \<noteq> [] \<longrightarrow> email (clienti' ! k) \<noteq> [])
             \<and> (telefono (clienti ! k) \<noteq> [] \<longrightarrow> telefono (clienti' ! k) \<noteq> [])
             \<and> (indirizzo (clienti ! k) \<noteq> [] \<longrightarrow> indirizzo (clienti' ! k) \<noteq> [])
             \<and> (dataNascita (clienti ! k) \<noteq> [] \<longrightarrow> dataNascita (clienti' ! k) \<noteq> []))"
proof -
  from assms have idx: "controllaEsistenzaCliente clienti cf = int k"
    by (rule controllaEsistenzaCliente_primo)
  from assms(1) have ne: "clienti \<noteq> []" by auto
  have eq: "modificaCliente cf nn nc ne nt ni nd clienti =
           (Successo,
            clienti[k := (clienti ! k)
              \<lparr>nome := (if nn = [] then nome (clienti ! k) else nn),
               cognome := (if nc = [] then cognome (clienti ! k) else nc),
               email := (if ne = [] then email (clienti ! k) else ne),
               telefono := (if nt = [] then telefono (clienti ! k) else nt),
               indirizzo := (if ni = [] then indirizzo (clienti ! k) else ni),
               dataNascita := (if nd = [] then dataNascita (clienti ! k) else nd)\<rparr>])"
    using assms(1) ne by (simp add: modificaCliente_def idx Let_def)
  show ?thesis
    unfolding eq using assms(1) by (simp add: nth_list_update)
qed

text \<open>Two of the six fields are entered for the second customer of a store of two.\<close>

theorem C7_modificaCliente_witness:
  "modificaCliente ''BNC'' ''Ugo Maria'' [] [] ''222'' [] []
     [nuovoCliente ''Anna'' ''Rossi'' ''a@x.it'' ''000'' ''Via Roma'' ''RSS'' ''01/01/1980'',
      aggiungiInterazione
        (nuovoCliente ''Ugo'' ''Bianchi'' ''u@x.it'' ''111'' ''Via Po'' ''BNC'' ''02/02/1970'')
        (nuovaInterazione ''01/06/2024'' ''10:00'' APPUNTAMENTO ''Checkup'' ''Luigi'' ''Booked'')]
   = (Successo,
     [nuovoCliente ''Anna'' ''Rossi'' ''a@x.it'' ''000'' ''Via Roma'' ''RSS'' ''01/01/1980'',
      aggiungiInterazione
        (nuovoCliente ''Ugo Maria'' ''Bianchi'' ''u@x.it'' ''222'' ''Via Po'' ''BNC'' ''02/02/1970'')
        (nuovaInterazione ''01/06/2024'' ''10:00'' APPUNTAMENTO ''Checkup'' ''Luigi'' ''Booked'')])"
  using C7_modificaCliente [of 1
     "[nuovoCliente ''Anna'' ''Rossi'' ''a@x.it'' ''000'' ''Via Roma'' ''RSS'' ''01/01/1980'',
      aggiungiInterazione
        (nuovoCliente ''Ugo'' ''Bianchi'' ''u@x.it'' ''111'' ''Via Po'' ''BNC'' ''02/02/1970'')
        (nuovaInterazione ''01/06/2024'' ''10:00'' APPUNTAMENTO ''Checkup'' ''Luigi'' ''Booked'')]"
     "''BNC''" "''Ugo Maria''" "[]" "[]" "''222''" "[]" "[]"]
  by (simp add: nuovoCliente_def aggiungiInterazione_def nuovaInterazione_def)


section \<open>Removing an interaction\<close>

text \<open>
  C9: \<open>eliminaInterazione\<close> fails with \<open>NotFound\<close> when no customer has the tax code,
  and when the position is outside the range of the interaction list of the (first)
  customer with that tax code. Otherwise it removes exactly the interaction at that
  position: the list is one shorter, the interactions before the position stay, the
  later ones move down by one, and every other customer is unchanged.
\<close>

theorem C9_eliminaInterazione:
  "((\<forall>x\<in>set clienti. codiceFiscale x \<noteq> cf)
      \<longrightarrow> eliminaInterazione cf p clienti = (NotFound, clienti))
   \<and> (k < length clienti \<and> codiceFiscale (clienti ! k) = cf
        \<and> (\<forall>j<k. codiceFiscale (clienti ! j) \<noteq> cf)
      \<longrightarrow> ((p < 0 \<or> int (length (interazioni (clienti ! k))) \<le> p)
             \<longrightarrow> eliminaInterazione cf p clienti = (NotFound, clienti))
        \<and> (0 \<le> p \<and> p < int (length (interazioni (clienti ! k)))
             \<longrightarrow> (\<exists>c'. eliminaInterazione cf p clienti = (Successo, clienti[k := c'])
                  \<and> c' = (clienti ! k)\<lparr>interazioni :=
                             take (nat p) (interazioni (clienti ! k))
                             @ drop (Suc (nat p)) (interazioni (clienti ! k))\<rparr>
                  \<and> length (interazioni c') + 1 = length (interazioni (clienti ! k))
                  \<and> (\<forall>j<nat p. interazioni c' ! j = interazioni (clienti ! k) ! j)
                  \<and> (\<forall>j. nat p \<le> j \<and> j < length (interazioni c')
                        \<longrightarrow> interazioni c' ! j = interazioni (clienti ! k) ! (j + 1)))))"
proof -
  have a: "eliminaInterazione cf p clienti = (NotFound, clienti)"
    if "\<forall>x\<in>set clienti. codiceFiscale x \<noteq> cf"
    using that by (simp add: eliminaInterazione_def controllaEsistenzaCliente_assente)
  have b: "eliminaInterazione cf p clienti = (NotFound, clienti)"
    if "k < length clienti" "codiceFiscale (clienti ! k) = cf"
      "\<forall>j<k. codiceFiscale (clienti ! j) \<noteq> cf"
      "p < 0 \<or> int (length (interazioni (clienti ! k))) \<le> p"
  proof -
    from that(1-3) have "controllaEsistenzaCliente clienti cf = int k"
      by (rule controllaEsistenzaCliente_primo)
    with that(4) show ?thesis by (auto simp: eliminaInterazione_def)
  qed
  have c: "eliminaInterazione cf p clienti =
             (Successo, clienti[k := (clienti ! k)\<lparr>interazioni :=
                             take (nat p) (interazioni (clienti ! k))
                             @ drop (Suc (nat p)) (interazioni (clienti ! k))\<rparr>])"
    if "k < length clienti" "codiceFiscale (clienti ! k) = cf"
      "\<forall>j<k. codiceFiscale (clienti ! j) \<noteq> cf"
      "0 \<le> p" "p < int (length (interazioni (clienti ! k)))"
  proof -
    from that(1-3) have "controllaEsistenzaCliente clienti cf = int k"
      by (rule controllaEsistenzaCliente_primo)
    with that(4,5) show ?thesis by (simp add: eliminaInterazione_def rimuoviInterazione_def)
  qed
  have d: "length (take n xs @ drop (Suc n) xs) + 1 = length xs
           \<and> (\<forall>j<n. (take n xs @ drop (Suc n) xs) ! j = xs ! j)
           \<and> (\<forall>j. n \<le> j \<and> j < length (take n xs @ drop (Suc n) xs)
                 \<longrightarrow> (take n xs @ drop (Suc n) xs) ! j = xs ! (j + 1))"
    if "n < length xs" for n and xs :: "Interazione list"
    using that by (auto simp: nth_append min_def)
  show ?thesis
  proof (intro conjI impI)
    assume "\<forall>x\<in>set clienti. codiceFiscale x \<noteq> cf"
    then show "eliminaInterazione cf p clienti = (NotFound, clienti)" by (rule a)
  next
    assume h: "k < length clienti \<and> codiceFiscale (clienti ! k) = cf
        \<and> (\<forall>j<k. codiceFiscale (clienti ! j) \<noteq> cf)"
      and "p < 0 \<or> int (length (interazioni (clienti ! k))) \<le> p"
    then show "eliminaInterazione cf p clienti = (NotFound, clienti)" using b by blast
  next
    assume h: "k < length clienti \<and> codiceFiscale (clienti ! k) = cf
        \<and> (\<forall>j<k. codiceFiscale (clienti ! j) \<noteq> cf)"
      and r: "0 \<le> p \<and> p < int (length (interazioni (clienti ! k)))"
    from r have n: "nat p < length (interazioni (clienti ! k))" by auto
    from h r have e: "eliminaInterazione cf p clienti =
             (Successo, clienti[k := (clienti ! k)\<lparr>interazioni :=
                             take (nat p) (interazioni (clienti ! k))
                             @ drop (Suc (nat p)) (interazioni (clienti ! k))\<rparr>])"
      using c by blast
    let ?c = "(clienti ! k)\<lparr>interazioni :=
                 take (nat p) (interazioni (clienti ! k))
                 @ drop (Suc (nat p)) (interazioni (clienti ! k))\<rparr>"
    have i: "interazioni ?c = take (nat p) (interazioni (clienti ! k))
                 @ drop (Suc (nat p)) (interazioni (clienti ! k))"
      by simp
    show "\<exists>c'. eliminaInterazione cf p clienti = (Successo, clienti[k := c'])
                  \<and> c' = (clienti ! k)\<lparr>interazioni :=
                             take (nat p) (interazioni (clienti ! k))
                             @ drop (Suc (nat p)) (interazioni (clienti ! k))\<rparr>
                  \<and> length (interazioni c') + 1 = length (interazioni (clienti ! k))
                  \<and> (\<forall>j<nat p. interazioni c' ! j = interazioni (clienti ! k) ! j)
                  \<and> (\<forall>j. nat p \<le> j \<and> j < length (interazioni c')
                        \<longrightarrow> interazioni c' ! j = interazioni (clienti ! k) ! (j + 1))"
    proof (intro exI [of _ ?c] conjI)
      show "eliminaInterazione cf p clienti = (Successo, clienti[k := ?c])" by (rule e)
      show "?c = ?c" by (rule refl)
      show "length (interazioni ?c) + 1 = length (interazioni (clienti ! k))"
        unfolding i using d [OF n] by blast
      show "\<forall>j<nat p. interazioni ?c ! j = interazioni (clienti ! k) ! j"
        unfolding i using d [OF n] by blast
      show "\<forall>j. nat p \<le> j \<and> j < length (interazioni ?c)
              \<longrightarrow> interazioni ?c ! j = interazioni (clienti ! k) ! (j + 1)"
        unfolding i using d [OF n] by blast
    qed
  qed
qed

text \<open>An unknown tax code, a position past the end, and the removal of the first of two.\<close>

theorem C9_eliminaInterazione_witness:
  "eliminaInterazione ''ZZZ'' 0
     [aggiungiInterazione (aggiungiInterazione (nuovoCliente ''Ugo'' ''Bianchi'' [] [] [] ''BNC'' [])
        (nuovaInterazione ''01/06/2024'' ''10:00'' APPUNTAMENTO ''Checkup'' ''Luigi'' ''Booked''))
        (nuovaInterazione ''02/06/2024'' ''11:00'' EMAIL ''Offer'' ''Luigi'' ''Sent'')]
   = (NotFound,
     [aggiungiInterazione (aggiungiInterazione (nuovoCliente ''Ugo'' ''Bianchi'' [] [] [] ''BNC'' [])
        (nuovaInterazione ''01/06/2024'' ''10:00'' APPUNTAMENTO ''Checkup'' ''Luigi'' ''Booked''))
        (nuovaInterazione ''02/06/2024'' ''11:00'' EMAIL ''Offer'' ''Luigi'' ''Sent'')])
   \<and> eliminaInterazione ''BNC'' 2
     [aggiungiInterazione (aggiungiInterazione (nuovoCliente ''Ugo'' ''Bianchi'' [] [] [] ''BNC'' [])
        (nuovaInterazione ''01/06/2024'' ''10:00'' APPUNTAMENTO ''Checkup'' ''Luigi'' ''Booked''))
        (nuovaInterazione ''02/06/2024'' ''11:00'' EMAIL ''Offer'' ''Luigi'' ''Sent'')]
   = (NotFound,
     [aggiungiInterazione (aggiungiInterazione (nuovoCliente ''Ugo'' ''Bianchi'' [] [] [] ''BNC'' [])
        (nuovaInterazione ''01/06/2024'' ''10:00'' APPUNTAMENTO ''Checkup'' ''Luigi'' ''Booked''))
        (nuovaInterazione ''02/06/2024'' ''11:00'' EMAIL ''Offer'' ''Luigi'' ''Sent'')])
   \<and> eliminaInterazione ''BNC'' 0
     [aggiungiInterazione (aggiungiInterazione (nuovoCliente ''Ugo'' ''Bianchi'' [] [] [] ''BNC'' [])
        (nuovaInterazione ''01/06/2024'' ''10:00'' APPUNTAMENTO ''Checkup'' ''Luigi'' ''Booked''))
        (nuovaInterazione ''02/06/2024'' ''11:00'' EMAIL ''Offer'' ''Luigi'' ''Sent'')]
   = (Successo,
     [aggiungiInterazione (nuovoCliente ''Ugo'' ''Bianchi'' [] [] [] ''BNC'' [])
        (nuovaInterazione ''02/06/2024'' ''11:00'' EMAIL ''Offer'' ''Luigi'' ''Sent'')])"
  using C9_eliminaInterazione [of
     "[aggiungiInterazione (aggiungiInterazione (nuovoCliente ''Ugo'' ''Bianchi'' [] [] [] ''BNC'' [])
        (nuovaInterazione ''01/06/2024'' ''10:00'' APPUNTAMENTO ''Checkup'' ''Luigi'' ''Booked''))
        (nuovaInterazione ''02/06/2024'' ''11:00'' EMAIL ''Offer'' ''Luigi'' ''Sent'')]"
     "''ZZZ''" 0 0]
    C9_eliminaInterazione [of
     "[aggiungiInterazione (aggiungiInterazione (nuovoCliente ''Ugo'' ''Bianchi'' [] [] [] ''BNC'' [])
        (nuovaInterazione ''01/06/2024'' ''10:00'' APPUNTAMENTO ''Checkup'' ''Luigi'' ''Booked''))
        (nuovaInterazione ''02/06/2024'' ''11:00'' EMAIL ''Offer'' ''Luigi'' ''Sent'')]"
     "''BNC''" 2 0]
    C9_eliminaInterazione [of
     "[aggiungiInterazione (aggiungiInterazione (nuovoCliente ''Ugo'' ''Bianchi'' [] [] [] ''BNC'' [])
        (nuovaInterazione ''01/06/2024'' ''10:00'' APPUNTAMENTO ''Checkup'' ''Luigi'' ''Booked''))
        (nuovaInterazione ''02/06/2024'' ''11:00'' EMAIL ''Offer'' ''Luigi'' ''Sent'')]"
     "''BNC''" 0 0]
  by (simp add: nuovoCliente_def aggiungiInterazione_def nuovaInterazione_def)

section \<open>Searching customers\<close>

lemma take_eq_iff_prefix: "(take (length t) s = t) = (\<exists>q. s = t @ q)"
proof
  assume "take (length t) s = t"
  then have "s = t @ drop (length t) s" by (metis append_take_drop_id)
  then show "\<exists>q. s = t @ q" ..
next
  assume "\<exists>q. s = t @ q"
  then show "take (length t) s = t" by auto
qed

lemma string_find_iff: "(string_find s t \<noteq> None) = (\<exists>p q. s = p @ t @ q)"
proof (induction s)
  case Nil
  then show ?case by simp
next
  case (Cons c s)
  show ?case
  proof (cases "take (length t) (c # s) = t")
    case True
    then obtain q where "c # s = t @ q" unfolding take_eq_iff_prefix ..
    then have "c # s = [] @ t @ q" by simp
    then have "\<exists>p q. c # s = p @ t @ q" by blast
    with True show ?thesis by simp
  next
    case False
    have "(\<exists>p q. c # s = p @ t @ q) = (\<exists>p q. s = p @ t @ q)"
    proof
      assume "\<exists>p q. c # s = p @ t @ q"
      then obtain p q where pq: "c # s = p @ t @ q" by blast
      show "\<exists>p q. s = p @ t @ q"
      proof (cases p)
        case Nil
        with pq have "\<exists>q. c # s = t @ q" by auto
        with False show ?thesis unfolding take_eq_iff_prefix by blast
      next
        case (Cons a p')
        with pq have "s = p' @ t @ q" by simp
        then show ?thesis by blast
      qed
    next
      assume "\<exists>p q. s = p @ t @ q"
      then obtain p q where "s = p @ t @ q" by blast
      then have "c # s = (c # p) @ t @ q" by simp
      then show "\<exists>p q. c # s = p @ t @ q" by blast
    qed
    with False Cons.IH show ?thesis by simp
  qed
qed

lemma cercaCliente_da_filter:
  "cercaCliente_da i cs t
   = filter (\<lambda>(n, x). contieneStringa x t) (zip [Suc i..<Suc i + length cs] cs)"
proof (induction cs arbitrary: i)
  case Nil
  then show ?case by simp
next
  case (Cons c cs)
  have "[Suc i..<Suc i + length (c # cs)] = Suc i # [Suc (Suc i)..<Suc (Suc i) + length cs]"
    by (subst upt_conv_Cons) simp_all
  then show ?case by (simp add: Cons.IH del: upt_Suc)
qed

lemma map_snd_filter_zip:
  "length ns = length cs \<Longrightarrow>
   map snd (filter (\<lambda>(n, x). P x) (zip ns cs)) = filter P cs"
  by (induction ns cs rule: list_induct2) auto

text \<open>
  C6: \<open>contieneStringa\<close> is true exactly when the lowercased search term is a substring
  of the lowercased name, surname, e-mail or phone of the customer, or the search term
  as it is is a substring of the tax code. So a customer named \<open>''Mario''\<close> is matched
  by \<open>''mario''\<close> and by \<open>''MARIO''\<close>. \<open>cercaCliente\<close> reports every matching
  customer, in store order, under its position counted from 1.
\<close>

theorem C6_contieneStringa:
  "contieneStringa c t =
     ((\<exists>p q. map tolower (nome c) = p @ map tolower t @ q)
      \<or> (\<exists>p q. map tolower (cognome c) = p @ map tolower t @ q)
      \<or> (\<exists>p q. map tolower (email c) = p @ map tolower t @ q)
      \<or> (\<exists>p q. map tolower (telefono c) = p @ map tolower t @ q)
      \<or> (\<exists>p q. codiceFiscale c = p @ t @ q))
   \<and> (nome c = ''Mario'' \<longrightarrow> contieneStringa c ''mario'' \<and> contieneStringa c ''MARIO'')
   \<and> cercaCliente t clienti
       = filter (\<lambda>(n, x). contieneStringa x t) (zip [1..<Suc (length clienti)] clienti)
   \<and> map snd (cercaCliente t clienti) = filter (\<lambda>x. contieneStringa x t) clienti"
proof -
  have a: "contieneStringa c t =
     ((\<exists>p q. map tolower (nome c) = p @ map tolower t @ q)
      \<or> (\<exists>p q. map tolower (cognome c) = p @ map tolower t @ q)
      \<or> (\<exists>p q. map tolower (email c) = p @ map tolower t @ q)
      \<or> (\<exists>p q. map tolower (telefono c) = p @ map tolower t @ q)
      \<or> (\<exists>p q. codiceFiscale c = p @ t @ q))" for c t
    unfolding contieneStringa_def Let_def string_find_iff by simp
  have m: "map tolower ''Mario'' = [] @ map tolower ''mario'' @ []"
    "map tolower ''Mario'' = [] @ map tolower ''MARIO'' @ []"
    by (simp_all add: tolower_def)
  have b: "contieneStringa c ''mario'' \<and> contieneStringa c ''MARIO''" if "nome c = ''Mario''"
    unfolding a that using m by blast
  have d: "cercaCliente t clienti
       = filter (\<lambda>(n, x). contieneStringa x t) (zip [1..<Suc (length clienti)] clienti)"
    by (simp add: cercaCliente_def cercaCliente_da_filter del: upt_Suc)
  have e: "map snd (cercaCliente t clienti) = filter (\<lambda>x. contieneStringa x t) clienti"
    unfolding d by (rule map_snd_filter_zip) (simp del: upt_Suc)
  from a b d e show ?thesis by blast
qed

text \<open>A customer named Mario, searched in lower and in upper case.\<close>

theorem C6_contieneStringa_witness:
  "nome (nuovoCliente ''Mario'' ''Rossi'' [] [] [] ''RSS'' []) = ''Mario''
   \<and> contieneStringa (nuovoCliente ''Mario'' ''Rossi'' [] [] [] ''RSS'' []) ''mario''
   \<and> contieneStringa (nuovoCliente ''Mario'' ''Rossi'' [] [] [] ''RSS'' []) ''MARIO''"
  using C6_contieneStringa [of "nuovoCliente ''Mario'' ''Rossi'' [] [] [] ''RSS'' []" "[]" "[]",
          THEN conjunct2, THEN conjunct1]
  by (simp add: nuovoCliente_def)

section \<open>Loading: lines, fields and the two loops\<close>

lemma leggi_linee_Nil: "leggi_linee [] = []"
  by (simp add: leggi_linee.simps)

lemma leggi_linee_Cons:
  "leggi_linee (c # s) =
     takeWhile (\<lambda>x. x \<noteq> CHR 0x0A) (c # s)
     # leggi_linee (drop 1 (dropWhile (\<lambda>x. x \<noteq> CHR 0x0A) (c # s)))"
  by (subst leggi_linee.simps) simp

lemma leggi_linee_riga:
  assumes "CHR 0x0A \<notin> set l"
  shows "leggi_linee (l @ CHR 0x0A # r) = l # leggi_linee r"
proof -
  from assms have p: "\<And>x. x \<in> set l \<Longrightarrow> x \<noteq> CHR 0x0A" by auto
  have t: "takeWhile (\<lambda>x. x \<noteq> CHR 0x0A) (l @ CHR 0x0A # r) = l"
    using p by (simp add: takeWhile_append2)
  have d: "dropWhile (\<lambda>x. x \<noteq> CHR 0x0A) (l @ CHR 0x0A # r) = CHR 0x0A # r"
    using p by (simp add: dropWhile_append2)
  obtain c s where cs: "l @ CHR 0x0A # r = c # s" by (cases l) auto
  have "leggi_linee (c # s) =
     takeWhile (\<lambda>x. x \<noteq> CHR 0x0A) (c # s)
     # leggi_linee (drop 1 (dropWhile (\<lambda>x. x \<noteq> CHR 0x0A) (c # s)))"
    by (rule leggi_linee_Cons)
  then show ?thesis unfolding cs [symmetric] t d by simp
qed

lemma carica_clienti_eq:
  "carica_clienti ls acc =
     acc @ map cliente_da_campi
             (filter (\<lambda>d. length d = 7) (map dividi (filter (\<lambda>l. l \<noteq> []) ls)))"
  by (induction ls arbitrary: acc) (simp_all add: Let_def)

lemma aggiungi_al_primo_senza:
  "map (\<lambda>c. c\<lparr>interazioni := []\<rparr>) (aggiungi_al_primo cf i cs)
   = map (\<lambda>c. c\<lparr>interazioni := []\<rparr>) cs"
  by (induction cs) (simp_all add: aggiungiInterazione_def)

lemma carica_interazioni_senza:
  "map (\<lambda>c. c\<lparr>interazioni := []\<rparr>) (carica_interazioni ls cs)
   = map (\<lambda>c. c\<lparr>interazioni := []\<rparr>) cs"
  by (induction ls arbitrary: cs) (simp_all add: Let_def aggiungi_al_primo_senza)

lemma senza_codiceFiscale:
  assumes "map (\<lambda>c. c\<lparr>interazioni := []\<rparr>) cs' = map (\<lambda>c. c\<lparr>interazioni := []\<rparr>) cs"
  shows "map codiceFiscale cs' = map codiceFiscale cs"
proof -
  have "map codiceFiscale (map (\<lambda>c. c\<lparr>interazioni := []\<rparr>) cs')
        = map codiceFiscale (map (\<lambda>c. c\<lparr>interazioni := []\<rparr>) cs)"
    using assms by simp
  then show ?thesis by (simp add: comp_def)
qed

lemma trovaCliente_da_cong:
  "map codiceFiscale cs' = map codiceFiscale cs
   \<Longrightarrow> trovaCliente_da j cs' cf = trovaCliente_da j cs cf"
proof (induction cs arbitrary: cs' j)
  case Nil
  then show ?case by simp
next
  case (Cons c cs)
  from Cons.prems obtain c' cs'' where e: "cs' = c' # cs''"
    and f: "codiceFiscale c' = codiceFiscale c"
    and m: "map codiceFiscale cs'' = map codiceFiscale cs"
    by (cases cs') auto
  from Cons.IH [OF m, of "Suc j"] e f show ?case by simp
qed

lemma trovaCliente_da_range:
  "trovaCliente_da j cs cf = -1 \<or> int j \<le> trovaCliente_da j cs cf"
proof (induction cs arbitrary: j)
  case Nil
  then show ?case by simp
next
  case (Cons c cs)
  from Cons [of "Suc j"] show ?case by auto
qed

lemma aggiungi_al_primo_nth:
  "k < length cs \<Longrightarrow>
   interazioni (aggiungi_al_primo cf i cs ! k)
   = interazioni (cs ! k) @ (if trovaCliente_da j cs cf = int (j + k) then [i] else [])"
proof (induction cs arbitrary: j k)
  case Nil
  then show ?case by simp
next
  case (Cons c cs)
  show ?case
  proof (cases "codiceFiscale c = cf")
    case True
    then show ?thesis by (cases k) (simp_all add: aggiungiInterazione_def)
  next
    case False
    show ?thesis
    proof (cases k)
      case 0
      from trovaCliente_da_range [of "Suc j" cs cf]
      have "trovaCliente_da (Suc j) cs cf \<noteq> int j" by auto
      with False 0 show ?thesis by simp
    next
      case (Suc k')
      with Cons.prems have "k' < length cs" by simp
      from Cons.IH [OF this, of "Suc j"] False Suc show ?thesis by simp
    qed
  qed
qed

lemma length_aggiungi_al_primo: "length (aggiungi_al_primo cf i cs) = length cs"
  by (induction cs) simp_all

lemma length_carica_interazioni: "length (carica_interazioni ls cs) = length cs"
  by (induction ls arbitrary: cs) (simp_all add: Let_def length_aggiungi_al_primo)

lemma trovaCliente_aggiungi_al_primo:
  "trovaCliente (aggiungi_al_primo cf i cs) cf' = trovaCliente cs cf'"
  unfolding trovaCliente_def
  by (rule trovaCliente_da_cong) (rule senza_codiceFiscale, rule aggiungi_al_primo_senza)

lemma carica_interazioni_nth:
  "k < length cs \<Longrightarrow>
   interazioni (carica_interazioni ls cs ! k)
   = interazioni (cs ! k)
     @ map interazione_da_campi
         (filter (\<lambda>d. trovaCliente cs (d ! 0) = int k)
            (filter (\<lambda>d. length d = 7) (map dividi (filter (\<lambda>l. l \<noteq> []) ls))))"
proof (induction ls arbitrary: cs)
  case Nil
  then show ?case by simp
next
  case (Cons l ls)
  show ?case
  proof (cases "l \<noteq> [] \<and> length (dividi l) = 7")
    case False
    with Cons show ?thesis by (auto simp: Let_def)
  next
    case True
    let ?cs = "aggiungi_al_primo (dividi l ! 0) (interazione_da_campi (dividi l)) cs"
    from Cons.prems have k: "k < length ?cs" by (simp add: length_aggiungi_al_primo)
    have step: "interazioni (?cs ! k)
        = interazioni (cs ! k)
          @ (if trovaCliente cs (dividi l ! 0) = int k then [interazione_da_campi (dividi l)] else [])"
      using aggiungi_al_primo_nth [OF Cons.prems, of "dividi l ! 0" _ 0]
      by (simp add: trovaCliente_def)
    from True have "carica_interazioni (l # ls) cs = carica_interazioni ls ?cs"
      by (simp add: Let_def)
    then show ?thesis
      using Cons.IH [OF k] True step by (simp add: trovaCliente_aggiungi_al_primo)
  qed
qed

lemma length_dividi_da:
  "length (dividi_da l d c) = length d + Suc (length (filter (\<lambda>x. x = CHR ''|'') l))"
  by (induction l arbitrary: d c) simp_all

lemma length_dividi: "length (dividi l) = Suc (length (filter (\<lambda>x. x = CHR ''|'') l))"
  by (simp add: dividi_def length_dividi_da)

lemma trovaCliente_da_trovato:
  "trovaCliente_da i cs cf \<noteq> -1 \<Longrightarrow>
   \<exists>k<length cs. trovaCliente_da i cs cf = int (i + k) \<and> codiceFiscale (cs ! k) = cf
      \<and> (\<forall>j<k. codiceFiscale (cs ! j) \<noteq> cf)"
proof (induction cs arbitrary: i)
  case Nil
  then show ?case by simp
next
  case (Cons c cs)
  show ?case
  proof (cases "codiceFiscale c = cf")
    case True
    then have "trovaCliente_da i (c # cs) cf = int (i + 0) \<and> codiceFiscale ((c # cs) ! 0) = cf
      \<and> (\<forall>j<0. codiceFiscale ((c # cs) ! j) \<noteq> cf)" by simp
    then show ?thesis by (intro exI [of _ 0]) simp
  next
    case False
    with Cons.prems have "trovaCliente_da (Suc i) cs cf \<noteq> -1" by simp
    from Cons.IH [OF this] obtain k where k: "k < length cs"
      "trovaCliente_da (Suc i) cs cf = int (Suc i + k)" "codiceFiscale (cs ! k) = cf"
      "\<forall>j<k. codiceFiscale (cs ! j) \<noteq> cf" by blast
    have "\<forall>j<Suc k. codiceFiscale ((c # cs) ! j) \<noteq> cf"
    proof (intro allI impI)
      fix j assume "j < Suc k"
      then show "codiceFiscale ((c # cs) ! j) \<noteq> cf"
        using False k(4) by (cases j) simp_all
    qed
    with k False have "Suc k < length (c # cs) \<and> trovaCliente_da i (c # cs) cf = int (i + Suc k)
      \<and> codiceFiscale ((c # cs) ! Suc k) = cf \<and> (\<forall>j<Suc k. codiceFiscale ((c # cs) ! j) \<noteq> cf)"
      by simp
    then show ?thesis by blast
  qed
qed

lemma trovaCliente_trovato:
  assumes "trovaCliente cs cf = int k"
  shows "k < length cs \<and> codiceFiscale (cs ! k) = cf \<and> (\<forall>j<k. codiceFiscale (cs ! j) \<noteq> cf)"
proof -
  from assms have "trovaCliente_da 0 cs cf \<noteq> -1" by (simp add: trovaCliente_def)
  from trovaCliente_da_trovato [OF this] assms show ?thesis by (auto simp: trovaCliente_def)
qed

lemma caricaDati_aperti:
  "caricaDati (Some fc) (Some fi) cs0
   = (True, carica_interazioni (leggi_linee fi) (map cliente_da_campi (campi_letti fc)))"
  by (simp add: caricaDati_def carica_clienti_eq campi_letti_def)

lemma interazioni_cliente_da_campi: "interazioni (cliente_da_campi d) = []"
  by (simp add: cliente_da_campi_def nuovoCliente_def)

lemma senza_cliente_da_campi:
  "map (\<lambda>c. c\<lparr>interazioni := []\<rparr>) (map cliente_da_campi ds) = map cliente_da_campi ds"
  by (induction ds) (simp_all add: cliente_da_campi_def nuovoCliente_def)

lemma caricaDati_senza:
  "map (\<lambda>c. c\<lparr>interazioni := []\<rparr>) (snd (caricaDati (Some fc) (Some fi) cs0))
   = map cliente_da_campi (campi_letti fc)"
  by (simp only: caricaDati_aperti snd_conv carica_interazioni_senza senza_cliente_da_campi)

lemma dividi_da_campo:
  "CHR ''|'' \<notin> set f \<Longrightarrow> dividi_da (f @ rest) d c = dividi_da rest d (c @ f)"
  by (induction f arbitrary: c) auto

lemma dividi_da_sep:
  "CHR ''|'' \<notin> set f \<Longrightarrow> dividi_da (f @ CHR ''|'' # rest) d c = dividi_da rest (d @ [c @ f]) []"
  by (simp add: dividi_da_campo)

lemma dividi_da_fine:
  "CHR ''|'' \<notin> set f \<Longrightarrow> dividi_da f d c = d @ [c @ f]"
  using dividi_da_campo [of f "[]" d c] by simp

lemma leggi_linee_ultima:
  assumes "CHR 0x0A \<notin> set u"
  shows "leggi_linee u = (if u = [] then [] else [u])"
proof (cases u)
  case Nil
  then show ?thesis by (simp add: leggi_linee_Nil)
next
  case (Cons c s)
  from assms have p: "\<And>x. x \<in> set u \<Longrightarrow> x \<noteq> CHR 0x0A" by auto
  have t: "takeWhile (\<lambda>x. x \<noteq> CHR 0x0A) u = u"
    using p by (simp add: takeWhile_eq_all_conv)
  have d: "dropWhile (\<lambda>x. x \<noteq> CHR 0x0A) u = []"
    using p by simp
  have "leggi_linee (c # s) =
     takeWhile (\<lambda>x. x \<noteq> CHR 0x0A) (c # s)
     # leggi_linee (drop 1 (dropWhile (\<lambda>x. x \<noteq> CHR 0x0A) (c # s)))"
    by (rule leggi_linee_Cons)
  then show ?thesis unfolding Cons [symmetric] t d using Cons by (simp add: leggi_linee_Nil)
qed

lemma leggi_linee_file:
  "\<forall>l\<in>set ls. CHR 0x0A \<notin> set l \<Longrightarrow> CHR 0x0A \<notin> set u
   \<Longrightarrow> leggi_linee (concat (map (\<lambda>l. l @ [CHR 0x0A]) ls) @ u)
       = ls @ (if u = [] then [] else [u])"
proof (induction ls)
  case Nil
  then show ?case using leggi_linee_ultima [of u] by simp
next
  case (Cons l ls)
  then show ?case by (simp add: leggi_linee_riga)
qed

lemma dividi_da_unisci:
  "\<forall>f\<in>set (f0 # fs). CHR ''|'' \<notin> set f
   \<Longrightarrow> dividi_da (f0 @ concat (map (\<lambda>g. CHR ''|'' # g) fs)) d c = d @ (c @ f0) # fs"
proof (induction fs arbitrary: f0 d c)
  case Nil
  then show ?case by (simp add: dividi_da_fine)
next
  case (Cons g fs)
  from Cons.prems have f0: "CHR ''|'' \<notin> set f0" and r: "\<forall>f\<in>set (g # fs). CHR ''|'' \<notin> set f"
    by simp_all
  have "dividi_da (f0 @ CHR ''|'' # (g @ concat (map (\<lambda>g. CHR ''|'' # g) fs))) d c
        = dividi_da (g @ concat (map (\<lambda>g. CHR ''|'' # g) fs)) (d @ [c @ f0]) []"
    by (rule dividi_da_sep [OF f0])
  also have "\<dots> = (d @ [c @ f0]) @ ([] @ g) # fs"
    by (rule Cons.IH [OF r])
  finally show ?case by simp
qed

lemma caricaDati_file:
  assumes "\<forall>l\<in>set linee. CHR 0x0A \<notin> set l" and "CHR 0x0A \<notin> set ultima"
  shows "map (\<lambda>c. c\<lparr>interazioni := []\<rparr>)
           (snd (caricaDati (Some (concat (map (\<lambda>l. l @ [CHR 0x0A]) linee) @ ultima))
                   (Some fi) cs0))
         = map cliente_da_campi
             (filter (\<lambda>d. length d = 7)
                (map dividi (filter (\<lambda>l. l \<noteq> []) (linee @ [ultima]))))"
proof -
  have "campi_letti (concat (map (\<lambda>l. l @ [CHR 0x0A]) linee) @ ultima)
        = filter (\<lambda>d. length d = 7)
                (map dividi (filter (\<lambda>l. l \<noteq> []) (linee @ [ultima])))"
    unfolding campi_letti_def leggi_linee_file [OF assms] by simp
  then show ?thesis by (simp only: caricaDati_senza)
qed

text \<open>
  C5: a line is split at every \<open>|\<close> byte, into one field more than it has such bytes,
  and a line that joins fields free of \<open>|\<close> is split into exactly those fields. For a
  customer file given by its bytes (lines ended by a newline, and a last line that may
  lack it), \<open>caricaDati\<close> succeeds whatever the lines are, and the customers it returns
  are, in file order, one customer with the seven fields for each non-empty line with
  exactly 7 fields, every other line being skipped; they carry no interactions until
  the second loop attaches some. In particular a customer file with a 7-field line and
  a 5-field line, in either order, loads with exactly the customer of the 7-field line.
\<close>

theorem C5_carica_clienti:
  "length (dividi linea) = Suc (length (filter (\<lambda>x. x = CHR ''|'') linea))
   \<and> ((\<forall>f\<in>set (f0 # fs). CHR ''|'' \<notin> set f)
        \<longrightarrow> dividi (f0 @ concat (map (\<lambda>g. CHR ''|'' # g) fs)) = f0 # fs)
   \<and> cliente_da_campi [n, c, e, t, i, cf, dn] = nuovoCliente n c e t i cf dn
   \<and> interazioni (cliente_da_campi dati) = []
   \<and> ((\<forall>l\<in>set (ultima # linee). CHR 0x0A \<notin> set l)
        \<longrightarrow> fst (caricaDati (Some (concat (map (\<lambda>l. l @ [CHR 0x0A]) linee) @ ultima))
                   (Some fi) cs0)
          \<and> map (\<lambda>c. c\<lparr>interazioni := []\<rparr>)
               (snd (caricaDati (Some (concat (map (\<lambda>l. l @ [CHR 0x0A]) linee) @ ultima))
                       (Some fi) cs0))
             = map cliente_da_campi
                 (filter (\<lambda>d. length d = 7)
                    (map dividi (filter (\<lambda>l. l \<noteq> []) (linee @ [ultima]))))
          \<and> snd (caricaDati (Some (concat (map (\<lambda>l. l @ [CHR 0x0A]) linee) @ ultima))
                  (Some []) cs0)
             = map cliente_da_campi
                 (filter (\<lambda>d. length d = 7)
                    (map dividi (filter (\<lambda>l. l \<noteq> []) (linee @ [ultima])))))
   \<and> (length (dividi buona) = 7 \<and> length (dividi malformata) = 5
        \<and> CHR 0x0A \<notin> set buona \<and> CHR 0x0A \<notin> set malformata
      \<longrightarrow> fst (caricaDati (Some (buona @ [CHR 0x0A] @ malformata @ [CHR 0x0A])) (Some fi) cs0)
        \<and> map (\<lambda>c. c\<lparr>interazioni := []\<rparr>)
            (snd (caricaDati (Some (buona @ [CHR 0x0A] @ malformata @ [CHR 0x0A])) (Some fi) cs0))
          = [cliente_da_campi (dividi buona)]
        \<and> fst (caricaDati (Some (malformata @ [CHR 0x0A] @ buona @ [CHR 0x0A])) (Some fi) cs0)
        \<and> map (\<lambda>c. c\<lparr>interazioni := []\<rparr>)
            (snd (caricaDati (Some (malformata @ [CHR 0x0A] @ buona @ [CHR 0x0A])) (Some fi) cs0))
          = [cliente_da_campi (dividi buona)])"
proof -
  have a: "dividi (f0 @ concat (map (\<lambda>g. CHR ''|'' # g) fs)) = f0 # fs"
    if "\<forall>f\<in>set (f0 # fs). CHR ''|'' \<notin> set f"
    unfolding dividi_def using dividi_da_unisci [OF that, of "[]" "[]"] by simp
  have b: "cliente_da_campi [n, c, e, t, i, cf, dn] = nuovoCliente n c e t i cf dn"
    by (simp add: cliente_da_campi_def)
  have ok: "fst (caricaDati (Some fc) (Some fi) cs0)" for fc
    by (simp add: caricaDati_aperti)
  have g: "map (\<lambda>c. c\<lparr>interazioni := []\<rparr>)
               (snd (caricaDati (Some (concat (map (\<lambda>l. l @ [CHR 0x0A]) linee) @ ultima))
                       (Some fi) cs0))
             = map cliente_da_campi
                 (filter (\<lambda>d. length d = 7)
                    (map dividi (filter (\<lambda>l. l \<noteq> []) (linee @ [ultima]))))"
    if "\<forall>l\<in>set (ultima # linee). CHR 0x0A \<notin> set l" for linee ultima fi
    using that by (intro caricaDati_file) simp_all
  have e: "snd (caricaDati (Some (concat (map (\<lambda>l. l @ [CHR 0x0A]) linee) @ ultima))
                  (Some []) cs0)
             = map cliente_da_campi
                 (filter (\<lambda>d. length d = 7)
                    (map dividi (filter (\<lambda>l. l \<noteq> []) (linee @ [ultima]))))"
    if h: "\<forall>l\<in>set (ultima # linee). CHR 0x0A \<notin> set l"
  proof -
    have "snd (caricaDati (Some fc) (Some []) cs0) = map cliente_da_campi (campi_letti fc)" for fc
      by (simp add: caricaDati_aperti leggi_linee_Nil)
    moreover have "map (\<lambda>c. c\<lparr>interazioni := []\<rparr>) (map cliente_da_campi ds)
      = map cliente_da_campi ds" for ds
      by (rule senza_cliente_da_campi)
    ultimately show ?thesis using g [OF h, of "[]"] by (simp only:)
  qed
  have two: "map (\<lambda>c. c\<lparr>interazioni := []\<rparr>)
            (snd (caricaDati (Some (buona @ [CHR 0x0A] @ malformata @ [CHR 0x0A])) (Some fi) cs0))
          = [cliente_da_campi (dividi buona)]
        \<and> map (\<lambda>c. c\<lparr>interazioni := []\<rparr>)
            (snd (caricaDati (Some (malformata @ [CHR 0x0A] @ buona @ [CHR 0x0A])) (Some fi) cs0))
          = [cliente_da_campi (dividi buona)]"
    if h: "length (dividi buona) = 7" "length (dividi malformata) = 5"
       "CHR 0x0A \<notin> set buona" "CHR 0x0A \<notin> set malformata"
  proof -
    from h(1) have ne: "buona \<noteq> []" by (auto simp: dividi_def)
    have l1: "\<forall>l\<in>set ([] # [buona, malformata]). CHR 0x0A \<notin> set l"
      and l2: "\<forall>l\<in>set ([] # [malformata, buona]). CHR 0x0A \<notin> set l"
      using h(3,4) by simp_all
    from g [OF l1, of fi] g [OF l2, of fi] ne h(1,2) show ?thesis by simp
  qed
  from length_dividi a b interazioni_cliente_da_campi ok g e two
  show ?thesis by (intro conjI impI) blast+
qed

text \<open>
  The customer line of the spec's example and a line of five fields, as file bytes, with
  the malformed line after and before the well-formed one.
\<close>

theorem C5_carica_clienti_witness:
  "length (dividi ''Anna|Rossi|a@x.it|000|Via Roma|RSSANN80A01H501Z|01/01/1980'') = 7
   \<and> length (dividi ''Ugo|Bianchi|u@x.it|111|BNC'') = 5
   \<and> CHR 0x0A \<notin> set ''Anna|Rossi|a@x.it|000|Via Roma|RSSANN80A01H501Z|01/01/1980''
   \<and> CHR 0x0A \<notin> set ''Ugo|Bianchi|u@x.it|111|BNC''
   \<and> fst (caricaDati
        (Some (''Anna|Rossi|a@x.it|000|Via Roma|RSSANN80A01H501Z|01/01/1980'' @ [CHR 0x0A]
               @ ''Ugo|Bianchi|u@x.it|111|BNC'' @ [CHR 0x0A]))
        (Some []) [])
   \<and> map (\<lambda>c. c\<lparr>interazioni := []\<rparr>) (snd (caricaDati
        (Some (''Anna|Rossi|a@x.it|000|Via Roma|RSSANN80A01H501Z|01/01/1980'' @ [CHR 0x0A]
               @ ''Ugo|Bianchi|u@x.it|111|BNC'' @ [CHR 0x0A]))
        (Some []) []))
     = [nuovoCliente ''Anna'' ''Rossi'' ''a@x.it'' ''000'' ''Via Roma'' ''RSSANN80A01H501Z''
          ''01/01/1980'']
   \<and> fst (caricaDati
        (Some (''Ugo|Bianchi|u@x.it|111|BNC'' @ [CHR 0x0A]
               @ ''Anna|Rossi|a@x.it|000|Via Roma|RSSANN80A01H501Z|01/01/1980'' @ [CHR 0x0A]))
        (Some []) [])
   \<and> map (\<lambda>c. c\<lparr>interazioni := []\<rparr>) (snd (caricaDati
        (Some (''Ugo|Bianchi|u@x.it|111|BNC'' @ [CHR 0x0A]
               @ ''Anna|Rossi|a@x.it|000|Via Roma|RSSANN80A01H501Z|01/01/1980'' @ [CHR 0x0A]))
        (Some []) []))
     = [nuovoCliente ''Anna'' ''Rossi'' ''a@x.it'' ''000'' ''Via Roma'' ''RSSANN80A01H501Z''
          ''01/01/1980'']"
proof -
  have h: "length (dividi ''Anna|Rossi|a@x.it|000|Via Roma|RSSANN80A01H501Z|01/01/1980'') = 7
   \<and> length (dividi ''Ugo|Bianchi|u@x.it|111|BNC'') = 5
   \<and> CHR 0x0A \<notin> set ''Anna|Rossi|a@x.it|000|Via Roma|RSSANN80A01H501Z|01/01/1980''
   \<and> CHR 0x0A \<notin> set ''Ugo|Bianchi|u@x.it|111|BNC''"
    by (simp add: dividi_def)
  have d: "cliente_da_campi (dividi ''Anna|Rossi|a@x.it|000|Via Roma|RSSANN80A01H501Z|01/01/1980'')
    = nuovoCliente ''Anna'' ''Rossi'' ''a@x.it'' ''000'' ''Via Roma'' ''RSSANN80A01H501Z''
          ''01/01/1980''"
    by (simp add: dividi_def cliente_da_campi_def)
  note t = C5_carica_clienti [where buona = "''Anna|Rossi|a@x.it|000|Via Roma|RSSANN80A01H501Z|01/01/1980''"
      and malformata = "''Ugo|Bianchi|u@x.it|111|BNC''" and fi = "[]" and ?cs0.0 = "[]",
      THEN conjunct2, THEN conjunct2, THEN conjunct2, THEN conjunct2, THEN conjunct2,
      rule_format, OF h]
  from t show ?thesis unfolding d using h by (intro conjI) simp_all
qed

section \<open>Loading: which customer an interaction goes to\<close>

lemma caricaDati_interazioni:
  assumes "caricaDati (Some fc) (Some fi) cs0 = (ok, cs)" and "k < length cs"
  shows "interazioni (cs ! k)
         = map interazione_da_campi
             (filter (\<lambda>d. trovaCliente cs (d ! 0) = int k) (campi_letti fi))"
proof -
  define base where "base = map cliente_da_campi (campi_letti fc)"
  from assms(1) have cs: "cs = carica_interazioni (leggi_linee fi) base"
    by (simp add: caricaDati_aperti base_def)
  then have k: "k < length base"
    using assms(2) by (simp add: length_carica_interazioni)
  have "map (\<lambda>c. c\<lparr>interazioni := []\<rparr>) cs = map (\<lambda>c. c\<lparr>interazioni := []\<rparr>) base"
    unfolding cs by (rule carica_interazioni_senza)
  then have "map codiceFiscale cs = map codiceFiscale base"
    by (rule senza_codiceFiscale)
  then have t: "trovaCliente cs cf = trovaCliente base cf" for cf
    unfolding trovaCliente_def by (rule trovaCliente_da_cong)
  have e: "interazioni (base ! k) = []"
    using k by (simp add: base_def interazioni_cliente_da_campi)
  have "interazioni (cs ! k)
        = interazioni (base ! k)
          @ map interazione_da_campi
              (filter (\<lambda>d. trovaCliente base (d ! 0) = int k)
                 (filter (\<lambda>d. length d = 7)
                    (map dividi (filter (\<lambda>l. l \<noteq> []) (leggi_linee fi)))))"
    unfolding cs by (rule carica_interazioni_nth [OF k])
  then show ?thesis
    by (simp only: e t campi_letti_def append_Nil)
qed

text \<open>
  C4: after a load that opened both files, the customers are those of the customer
  file, and the interactions of the customer at position \<open>k\<close> are, in file order,
  exactly the records of the interaction file whose leading field is looked up to \<open>k\<close>;
  that is the first position whose tax code equals the leading field. A record whose
  leading field is the tax code of no customer is attached nowhere, a record whose
  leading field is the tax code of some customer is attached at exactly one position.
\<close>

theorem C4_carica_interazioni:
  assumes "caricaDati (Some fc) (Some fi) cs0 = (ok, cs)"
  shows "ok
     \<and> map (\<lambda>c. c\<lparr>interazioni := []\<rparr>) cs = map cliente_da_campi (campi_letti fc)
     \<and> (\<forall>k<length cs. interazioni (cs ! k)
            = map interazione_da_campi
                (filter (\<lambda>d. trovaCliente cs (d ! 0) = int k) (campi_letti fi)))
     \<and> (\<forall>d\<in>set (campi_letti fi). \<forall>k. trovaCliente cs (d ! 0) = int k
            \<longrightarrow> k < length cs \<and> codiceFiscale (cs ! k) = d ! 0
                \<and> (\<forall>j<k. codiceFiscale (cs ! j) \<noteq> d ! 0))
     \<and> (\<forall>d\<in>set (campi_letti fi). (\<forall>c\<in>set cs. codiceFiscale c \<noteq> d ! 0)
            \<longrightarrow> (\<forall>k. trovaCliente cs (d ! 0) \<noteq> int k))
     \<and> (\<forall>d\<in>set (campi_letti fi). (\<exists>c\<in>set cs. codiceFiscale c = d ! 0)
            \<longrightarrow> (\<exists>k<length cs. trovaCliente cs (d ! 0) = int k))"
proof -
  from assms have a: "ok" by (auto simp: caricaDati_aperti)
  from caricaDati_senza [of fc fi cs0] assms
  have b: "map (\<lambda>c. c\<lparr>interazioni := []\<rparr>) cs = map cliente_da_campi (campi_letti fc)"
    by simp
  have c: "\<forall>k<length cs. interazioni (cs ! k)
            = map interazione_da_campi
                (filter (\<lambda>d. trovaCliente cs (d ! 0) = int k) (campi_letti fi))"
    using caricaDati_interazioni [OF assms] by blast
  have d: "\<forall>d\<in>set (campi_letti fi). \<forall>k. trovaCliente cs (d ! 0) = int k
            \<longrightarrow> k < length cs \<and> codiceFiscale (cs ! k) = d ! 0
                \<and> (\<forall>j<k. codiceFiscale (cs ! j) \<noteq> d ! 0)"
    using trovaCliente_trovato by blast
  have e: "\<forall>d\<in>set (campi_letti fi). (\<forall>c\<in>set cs. codiceFiscale c \<noteq> d ! 0)
            \<longrightarrow> (\<forall>k. trovaCliente cs (d ! 0) \<noteq> int k)"
  proof (intro ballI impI allI)
    fix d k assume "\<forall>c\<in>set cs. codiceFiscale c \<noteq> d ! 0"
    then have "trovaCliente cs (d ! 0) = -1" by (simp add: trovaCliente_assente)
    then show "trovaCliente cs (d ! 0) \<noteq> int k" by simp
  qed
  have f: "\<forall>d\<in>set (campi_letti fi). (\<exists>c\<in>set cs. codiceFiscale c = d ! 0)
            \<longrightarrow> (\<exists>k<length cs. trovaCliente cs (d ! 0) = int k)"
  proof (intro ballI impI)
    fix d assume "\<exists>c\<in>set cs. codiceFiscale c = d ! 0"
    then have "trovaCliente_da 0 cs (d ! 0) \<noteq> -1"
      by (simp add: trovaCliente_da_assente)
    from trovaCliente_da_trovato [OF this]
    show "\<exists>k<length cs. trovaCliente cs (d ! 0) = int k"
      by (auto simp: trovaCliente_def)
  qed
  from a b c d e f show ?thesis by blast
qed

text \<open>
  Two customers and three records: two for the first customer, with a blank line
  between them that is skipped, and one with a tax code of no customer, which is dropped.
\<close>

theorem C4_carica_interazioni_witness:
  "caricaDati (Some (''a|b|c|d|e|X|f'' @ [CHR 0x0A] @ ''g|h|i|j|k|Z|l'' @ [CHR 0x0A]))
     (Some (''X|1|2|Email|d|a|r'' @ [CHR 0x0A, CHR 0x0A] @ ''Y|5|6|Email|d|a|r'' @ [CHR 0x0A]
            @ ''X|3|4|Contratto|d|a|r'')) []
   = (True,
      [aggiungiInterazione (aggiungiInterazione (nuovoCliente ''a'' ''b'' ''c'' ''d'' ''e'' ''X'' ''f'')
         (nuovaInterazione ''1'' ''2'' EMAIL ''d'' ''a'' ''r''))
         (nuovaInterazione ''3'' ''4'' CONTRATTO ''d'' ''a'' ''r''),
       nuovoCliente ''g'' ''h'' ''i'' ''j'' ''k'' ''Z'' ''l''])
   \<and> interazioni ([aggiungiInterazione (aggiungiInterazione (nuovoCliente ''a'' ''b'' ''c'' ''d'' ''e'' ''X'' ''f'')
         (nuovaInterazione ''1'' ''2'' EMAIL ''d'' ''a'' ''r''))
         (nuovaInterazione ''3'' ''4'' CONTRATTO ''d'' ''a'' ''r''),
       nuovoCliente ''g'' ''h'' ''i'' ''j'' ''k'' ''Z'' ''l''] ! 0)
     = map interazione_da_campi
         (filter (\<lambda>d. trovaCliente
            [aggiungiInterazione (aggiungiInterazione (nuovoCliente ''a'' ''b'' ''c'' ''d'' ''e'' ''X'' ''f'')
         (nuovaInterazione ''1'' ''2'' EMAIL ''d'' ''a'' ''r''))
         (nuovaInterazione ''3'' ''4'' CONTRATTO ''d'' ''a'' ''r''),
       nuovoCliente ''g'' ''h'' ''i'' ''j'' ''k'' ''Z'' ''l''] (d ! 0) = int 0)
           (campi_letti (''X|1|2|Email|d|a|r'' @ [CHR 0x0A, CHR 0x0A] @ ''Y|5|6|Email|d|a|r'' @ [CHR 0x0A]
            @ ''X|3|4|Contratto|d|a|r'')))
   \<and> interazioni ([aggiungiInterazione (aggiungiInterazione (nuovoCliente ''a'' ''b'' ''c'' ''d'' ''e'' ''X'' ''f'')
         (nuovaInterazione ''1'' ''2'' EMAIL ''d'' ''a'' ''r''))
         (nuovaInterazione ''3'' ''4'' CONTRATTO ''d'' ''a'' ''r''),
       nuovoCliente ''g'' ''h'' ''i'' ''j'' ''k'' ''Z'' ''l''] ! 1)
     = map interazione_da_campi
         (filter (\<lambda>d. trovaCliente
            [aggiungiInterazione (aggiungiInterazione (nuovoCliente ''a'' ''b'' ''c'' ''d'' ''e'' ''X'' ''f'')
         (nuovaInterazione ''1'' ''2'' EMAIL ''d'' ''a'' ''r''))
         (nuovaInterazione ''3'' ''4'' CONTRATTO ''d'' ''a'' ''r''),
       nuovoCliente ''g'' ''h'' ''i'' ''j'' ''k'' ''Z'' ''l''] (d ! 0) = int 1)
           (campi_letti (''X|1|2|Email|d|a|r'' @ [CHR 0x0A, CHR 0x0A] @ ''Y|5|6|Email|d|a|r'' @ [CHR 0x0A]
            @ ''X|3|4|Contratto|d|a|r'')))
   \<and> interazioni ([aggiungiInterazione (aggiungiInterazione (nuovoCliente ''a'' ''b'' ''c'' ''d'' ''e'' ''X'' ''f'')
         (nuovaInterazione ''1'' ''2'' EMAIL ''d'' ''a'' ''r''))
         (nuovaInterazione ''3'' ''4'' CONTRATTO ''d'' ''a'' ''r''),
       nuovoCliente ''g'' ''h'' ''i'' ''j'' ''k'' ''Z'' ''l''] ! 0)
     = [nuovaInterazione ''1'' ''2'' EMAIL ''d'' ''a'' ''r'',
        nuovaInterazione ''3'' ''4'' CONTRATTO ''d'' ''a'' ''r'']"
proof -
  let ?S = "[aggiungiInterazione (aggiungiInterazione (nuovoCliente ''a'' ''b'' ''c'' ''d'' ''e'' ''X'' ''f'')
         (nuovaInterazione ''1'' ''2'' EMAIL ''d'' ''a'' ''r''))
         (nuovaInterazione ''3'' ''4'' CONTRATTO ''d'' ''a'' ''r''),
       nuovoCliente ''g'' ''h'' ''i'' ''j'' ''k'' ''Z'' ''l'']"
  let ?fi = "(''X|1|2|Email|d|a|r'' @ [CHR 0x0A, CHR 0x0A] @ ''Y|5|6|Email|d|a|r'' @ [CHR 0x0A]
            @ ''X|3|4|Contratto|d|a|r'')"
  have h: "caricaDati (Some (''a|b|c|d|e|X|f'' @ [CHR 0x0A] @ ''g|h|i|j|k|Z|l'' @ [CHR 0x0A])) (Some ?fi) [] = (True, ?S)"
    by (simp add: caricaDati_def leggi_linee_Nil leggi_linee_Cons dividi_def
          cliente_da_campi_def interazione_da_campi_def tipoDaStringa_def
          aggiungiInterazione_def nuovoCliente_def nuovaInterazione_def)
  from C4_carica_interazioni [OF h]
  have a: "\<forall>k<length ?S. interazioni (?S ! k)
      = map interazione_da_campi
         (filter (\<lambda>d. trovaCliente ?S (d ! 0) = int k) (campi_letti ?fi))"
    by (rule conjunct2 [THEN conjunct2, THEN conjunct1])
  have l: "0 < length ?S" "1 < length ?S" by simp_all
  have i: "interazioni (?S ! 0)
     = [nuovaInterazione ''1'' ''2'' EMAIL ''d'' ''a'' ''r'',
        nuovaInterazione ''3'' ''4'' CONTRATTO ''d'' ''a'' ''r'']"
    by (simp add: aggiungiInterazione_def nuovoCliente_def)
  from h a [rule_format, OF l(1)] a [rule_format, OF l(2)] i show ?thesis
    by (intro conjI)
qed

section \<open>Uniqueness of the tax code\<close>

text \<open>
  \<open>aggiungiCliente\<close> keeps the tax codes pairwise distinct: it checks for the tax code
  before it appends.
\<close>

lemma aggiungiCliente_distinct:
  "distinct (map codiceFiscale clienti)
   \<Longrightarrow> distinct (map codiceFiscale (snd (aggiungiCliente n c e t i cf dn clienti)))"
  by (auto simp: aggiungiCliente_def trovaCliente_assente nuovoCliente_def)

text \<open>
  C2: \<open>caricaDati\<close> makes no such check. A customer file with two lines of the same tax
  code loads into a store with two customers of that tax code.
\<close>

theorem C2_caricaDati_duplicati:
  "caricaDati (Some (''a|b|c|d|e|X|f'' @ [CHR 0x0A] @ ''g|h|i|j|k|X|l'' @ [CHR 0x0A])) (Some []) []
   = (True, [nuovoCliente ''a'' ''b'' ''c'' ''d'' ''e'' ''X'' ''f'',
             nuovoCliente ''g'' ''h'' ''i'' ''j'' ''k'' ''X'' ''l''])
   \<and> \<not> distinct (map codiceFiscale (snd (caricaDati
        (Some (''a|b|c|d|e|X|f'' @ [CHR 0x0A] @ ''g|h|i|j|k|X|l'' @ [CHR 0x0A])) (Some []) [])))"
  by (simp add: caricaDati_def leggi_linee_Nil leggi_linee_Cons dividi_def
        cliente_da_campi_def nuovoCliente_def)

section \<open>Saving and loading again\<close>

lemma dividi_sette:
  assumes "CHR ''|'' \<notin> set f0" "CHR ''|'' \<notin> set f1" "CHR ''|'' \<notin> set f2"
    "CHR ''|'' \<notin> set f3" "CHR ''|'' \<notin> set f4" "CHR ''|'' \<notin> set f5" "CHR ''|'' \<notin> set f6"
  shows "dividi (f0 @ ''|'' @ f1 @ ''|'' @ f2 @ ''|'' @ f3 @ ''|'' @ f4 @ ''|'' @ f5 @ ''|'' @ f6)
         = [f0, f1, f2, f3, f4, f5, f6]"
  using assms by (simp add: dividi_def dividi_da_sep dividi_da_fine)

lemma getTipoStringa_pulito: "campo_pulito (getTipoStringa i)"
  by (cases "tipo i") (simp_all add: getTipoStringa_def campo_pulito_def)

lemma tipoDaStringa_getTipoStringa: "tipoDaStringa (getTipoStringa i) = tipo i"
  by (cases "tipo i") (simp_all add: getTipoStringa_def tipoDaStringa_def)

lemma riga_cliente_campi:
  assumes "cliente_pulito c"
  shows "dividi (riga_cliente c)
         = [nome c, cognome c, email c, telefono c, indirizzo c, codiceFiscale c, dataNascita c]"
  unfolding riga_cliente_def
  using assms by (intro dividi_sette) (simp_all add: cliente_pulito_def campo_pulito_def)

lemma riga_cliente_linea:
  assumes "cliente_pulito c"
  shows "CHR 0x0A \<notin> set (riga_cliente c)" and "riga_cliente c \<noteq> []"
  using assms by (simp_all add: riga_cliente_def cliente_pulito_def campo_pulito_def)

lemma cliente_da_campi_riga:
  assumes "cliente_pulito c"
  shows "cliente_da_campi (dividi (riga_cliente c)) = c\<lparr>interazioni := []\<rparr>"
  unfolding riga_cliente_campi [OF assms]
  by (simp add: cliente_da_campi_def nuovoCliente_def)

lemma riga_interazione_campi:
  assumes "campo_pulito cf" and "interazione_pulita i"
  shows "dividi (riga_interazione cf i)
         = [cf, data i, ora i, getTipoStringa i, descrizione i, agente i, risultato i]"
  unfolding riga_interazione_def
  using assms getTipoStringa_pulito [of i]
  by (intro dividi_sette) (simp_all add: interazione_pulita_def campo_pulito_def)

lemma riga_interazione_linea:
  assumes "campo_pulito cf" and "interazione_pulita i"
  shows "CHR 0x0A \<notin> set (riga_interazione cf i)" and "riga_interazione cf i \<noteq> []"
  using assms getTipoStringa_pulito [of i]
  by (simp_all add: riga_interazione_def interazione_pulita_def campo_pulito_def)

lemma interazione_da_campi_riga:
  assumes "campo_pulito cf" and "interazione_pulita i"
  shows "interazione_da_campi (dividi (riga_interazione cf i)) = i"
  unfolding riga_interazione_campi [OF assms]
  by (simp add: interazione_da_campi_def nuovaInterazione_def tipoDaStringa_getTipoStringa)

lemma leggi_linee_concat:
  "\<forall>l\<in>set ls. CHR 0x0A \<notin> set l
   \<Longrightarrow> leggi_linee (concat (map (\<lambda>l. l @ [CHR 0x0A]) ls)) = ls"
  by (induction ls) (simp_all add: leggi_linee_Nil leggi_linee_riga)

lemma scrivi_interazioni_eq:
  "scrivi_interazioni cf is out
   = out @ concat (map (\<lambda>l. l @ [CHR 0x0A]) (map (riga_interazione cf) is))"
  by (induction "is" arbitrary: out) simp_all

lemma scrivi_clienti_eq:
  "scrivi_clienti cs outC outI
   = (outC @ concat (map (\<lambda>l. l @ [CHR 0x0A]) (map riga_cliente cs)),
      outI @ concat (map (\<lambda>l. l @ [CHR 0x0A])
               (concat (map (\<lambda>c. map (riga_interazione (codiceFiscale c)) (interazioni c)) cs))))"
  by (induction cs arbitrary: outC outI) (simp_all add: scrivi_interazioni_eq)

lemma carica_interazioni_append:
  "carica_interazioni (ls1 @ ls2) cs = carica_interazioni ls2 (carica_interazioni ls1 cs)"
  by (induction ls1 arbitrary: cs) (simp_all add: Let_def)

lemma aggiungi_al_primo_in_mezzo:
  "cf \<notin> codiceFiscale ` set pre \<Longrightarrow> codiceFiscale c0 = cf
   \<Longrightarrow> aggiungi_al_primo cf i (pre @ c0 # post) = pre @ aggiungiInterazione c0 i # post"
  by (induction pre) auto

lemma carica_interazioni_blocco:
  assumes "cf \<notin> codiceFiscale ` set pre" and "campo_pulito cf"
  shows "codiceFiscale c0 = cf \<Longrightarrow> list_all interazione_pulita is
   \<Longrightarrow> carica_interazioni (map (riga_interazione cf) is) (pre @ c0 # post)
       = pre @ c0\<lparr>interazioni := interazioni c0 @ is\<rparr> # post"
proof (induction "is" arbitrary: c0)
  case Nil
  then show ?case by simp
next
  case (Cons i "is")
  from Cons.prems(2) have p: "interazione_pulita i" and ps: "list_all interazione_pulita is"
    by simp_all
  have d: "dividi (riga_interazione cf i)
         = [cf, data i, ora i, getTipoStringa i, descrizione i, agente i, risultato i]"
    by (rule riga_interazione_campi [OF assms(2) p])
  have n: "riga_interazione cf i \<noteq> []"
    by (rule riga_interazione_linea(2) [OF assms(2) p])
  have e: "interazione_da_campi (dividi (riga_interazione cf i)) = i"
    by (rule interazione_da_campi_riga [OF assms(2) p])
  have "carica_interazioni (map (riga_interazione cf) (i # is)) (pre @ c0 # post)
        = carica_interazioni (map (riga_interazione cf) is)
            (aggiungi_al_primo cf i (pre @ c0 # post))"
    using n e by (simp add: Let_def d)
  also have "aggiungi_al_primo cf i (pre @ c0 # post) = pre @ aggiungiInterazione c0 i # post"
    by (rule aggiungi_al_primo_in_mezzo [OF assms(1) Cons.prems(1)])
  also have "carica_interazioni (map (riga_interazione cf) is)
               (pre @ aggiungiInterazione c0 i # post)
             = pre @ (aggiungiInterazione c0 i)
                       \<lparr>interazioni := interazioni (aggiungiInterazione c0 i) @ is\<rparr> # post"
    using Cons.prems(1) ps by (intro Cons.IH) (simp_all add: aggiungiInterazione_def)
  finally show ?case by (simp add: aggiungiInterazione_def)
qed

lemma carica_interazioni_tutti:
  "distinct (map codiceFiscale (fatti @ resto)) \<Longrightarrow> list_all cliente_pulito resto
   \<Longrightarrow> carica_interazioni
         (concat (map (\<lambda>c. map (riga_interazione (codiceFiscale c)) (interazioni c)) resto))
         (fatti @ map (\<lambda>c. c\<lparr>interazioni := []\<rparr>) resto)
       = fatti @ resto"
proof (induction resto arbitrary: fatti)
  case Nil
  then show ?case by simp
next
  case (Cons c resto)
  from Cons.prems(2) have pc: "cliente_pulito c" and pr: "list_all cliente_pulito resto"
    by simp_all
  from Cons.prems(1) have nf: "codiceFiscale c \<notin> codiceFiscale ` set fatti" by auto
  from Cons.prems(1) have di: "distinct (map codiceFiscale ((fatti @ [c]) @ resto))" by simp
  from pc have cf: "campo_pulito (codiceFiscale c)" and pi: "list_all interazione_pulita (interazioni c)"
    by (simp_all add: cliente_pulito_def)
  have blocco: "carica_interazioni (map (riga_interazione (codiceFiscale c)) (interazioni c))
          (fatti @ c\<lparr>interazioni := []\<rparr> # map (\<lambda>c. c\<lparr>interazioni := []\<rparr>) resto)
        = fatti @ (c\<lparr>interazioni := []\<rparr>)
                    \<lparr>interazioni := interazioni (c\<lparr>interazioni := []\<rparr>) @ interazioni c\<rparr>
            # map (\<lambda>c. c\<lparr>interazioni := []\<rparr>) resto"
    by (rule carica_interazioni_blocco [OF nf cf _ pi]) simp
  have "carica_interazioni
         (concat (map (\<lambda>c. map (riga_interazione (codiceFiscale c)) (interazioni c)) (c # resto)))
         (fatti @ map (\<lambda>c. c\<lparr>interazioni := []\<rparr>) (c # resto))
      = carica_interazioni
         (concat (map (\<lambda>c. map (riga_interazione (codiceFiscale c)) (interazioni c)) resto))
         ((fatti @ [c]) @ map (\<lambda>c. c\<lparr>interazioni := []\<rparr>) resto)"
    by (simp add: carica_interazioni_append blocco)
  also have "\<dots> = (fatti @ [c]) @ resto"
    by (rule Cons.IH [OF di pr])
  finally show ?case by simp
qed

lemma carica_clienti_righe:
  "list_all cliente_pulito cs
   \<Longrightarrow> carica_clienti (map riga_cliente cs) acc = acc @ map (\<lambda>c. c\<lparr>interazioni := []\<rparr>) cs"
proof (induction cs arbitrary: acc)
  case Nil
  then show ?case by simp
next
  case (Cons c cs)
  from Cons.prems have pc: "cliente_pulito c" and ps: "list_all cliente_pulito cs" by simp_all
  have "length (dividi (riga_cliente c)) = 7"
    unfolding riga_cliente_campi [OF pc] by simp
  with riga_cliente_linea(2) [OF pc] cliente_da_campi_riga [OF pc] Cons.IH [OF ps]
  show ?case by (simp add: Let_def)
qed

lemma righe_interazioni_linea:
  assumes "list_all cliente_pulito cs"
  shows "\<forall>l\<in>set (concat (map (\<lambda>c. map (riga_interazione (codiceFiscale c)) (interazioni c)) cs)).
           CHR 0x0A \<notin> set l"
proof
  fix l
  assume "l \<in> set (concat (map (\<lambda>c. map (riga_interazione (codiceFiscale c)) (interazioni c)) cs))"
  then obtain c i where c: "c \<in> set cs" and i: "i \<in> set (interazioni c)"
    and l: "l = riga_interazione (codiceFiscale c) i" by auto
  from assms c have "cliente_pulito c" by (simp add: list_all_iff)
  with i have "campo_pulito (codiceFiscale c)" and "interazione_pulita i"
    by (simp_all add: cliente_pulito_def list_all_iff)
  then show "CHR 0x0A \<notin> set l" unfolding l by (rule riga_interazione_linea(1))
qed

text \<open>
  C1, as stated, does not hold: the format has no escaping. A customer whose name
  contains the separator is written as a line of eight fields, and a customer whose
  address contains a newline is written as two lines of five and three fields; the load
  skips these lines, and the store comes back empty.
\<close>

theorem C1_separatore_counterexample:
  "distinct (map codiceFiscale [nuovoCliente ''a|b'' ''c'' ''d'' ''e'' ''f'' ''X'' ''g''])
   \<and> salvaDati True True [nuovoCliente ''a|b'' ''c'' ''d'' ''e'' ''f'' ''X'' ''g''] (None, None)
      = (True, Some (''a|b|c|d|e|f|X|g'' @ [CHR 0x0A]), Some [])
   \<and> caricaDati (Some (''a|b|c|d|e|f|X|g'' @ [CHR 0x0A])) (Some []) [] = (True, [])
   \<and> caricaDati (Some (''a|b|c|d|e|f|X|g'' @ [CHR 0x0A])) (Some []) []
      \<noteq> (True, [nuovoCliente ''a|b'' ''c'' ''d'' ''e'' ''f'' ''X'' ''g''])
   \<and> distinct (map codiceFiscale
        [nuovoCliente ''a'' ''b'' ''c'' ''d'' (''Via Roma'' @ [CHR 0x0A] @ ''Milano'') ''X'' ''g''])
   \<and> salvaDati True True
        [nuovoCliente ''a'' ''b'' ''c'' ''d'' (''Via Roma'' @ [CHR 0x0A] @ ''Milano'') ''X'' ''g'']
        (None, None)
      = (True, Some (''a|b|c|d|Via Roma'' @ [CHR 0x0A] @ ''Milano|X|g'' @ [CHR 0x0A]), Some [])
   \<and> caricaDati (Some (''a|b|c|d|Via Roma'' @ [CHR 0x0A] @ ''Milano|X|g'' @ [CHR 0x0A]))
        (Some []) []
      = (True, [])
   \<and> caricaDati (Some (''a|b|c|d|Via Roma'' @ [CHR 0x0A] @ ''Milano|X|g'' @ [CHR 0x0A]))
        (Some []) []
      \<noteq> (True,
          [nuovoCliente ''a'' ''b'' ''c'' ''d'' (''Via Roma'' @ [CHR 0x0A] @ ''Milano'') ''X'' ''g''])"
  by (simp add: salvaDati_def riga_cliente_def caricaDati_def leggi_linee_Nil leggi_linee_Cons
        dividi_def nuovoCliente_def)

text \<open>
  C1 (amended): for every store whose customers have pairwise distinct tax codes and
  in which no string of a customer or of an interaction contains \<open>|\<close> or a newline,
  when both files open for writing \<open>salvaDati\<close> succeeds, and \<open>caricaDati\<close> from the
  two files it wrote, into any store, succeeds and gives back the same customers in
  the same order, each with the same interactions in the same order.
\<close>

theorem C1_salva_carica:
  assumes "distinct (map codiceFiscale clienti)" and "list_all cliente_pulito clienti"
  shows "fst (salvaDati True True clienti vecchi)
     \<and> caricaDati (fst (snd (salvaDati True True clienti vecchi)))
         (snd (snd (salvaDati True True clienti vecchi))) altri
       = (True, clienti)"
proof -
  define fC where "fC = concat (map (\<lambda>l. l @ [CHR 0x0A]) (map riga_cliente clienti))"
  define righe where
    "righe = concat (map (\<lambda>c. map (riga_interazione (codiceFiscale c)) (interazioni c)) clienti)"
  define fI where "fI = concat (map (\<lambda>l. l @ [CHR 0x0A]) righe)"
  have salva: "salvaDati True True clienti vecchi = (True, Some fC, Some fI)"
    by (simp add: salvaDati_def scrivi_clienti_eq fC_def fI_def righe_def)
  have "\<forall>l\<in>set (map riga_cliente clienti). CHR 0x0A \<notin> set l"
    using assms(2) riga_cliente_linea(1) by (auto simp: list_all_iff)
  then have lC: "leggi_linee fC = map riga_cliente clienti"
    unfolding fC_def by (rule leggi_linee_concat)
  have lI: "leggi_linee fI = righe"
    unfolding fI_def righe_def
    by (rule leggi_linee_concat) (rule righe_interazioni_linea [OF assms(2)])
  have base: "carica_clienti (leggi_linee fC) [] = map (\<lambda>c. c\<lparr>interazioni := []\<rparr>) clienti"
    unfolding lC using carica_clienti_righe [OF assms(2), of "[]"] by simp
  have "carica_interazioni righe ([] @ map (\<lambda>c. c\<lparr>interazioni := []\<rparr>) clienti) = [] @ clienti"
    unfolding righe_def using assms by (intro carica_interazioni_tutti) simp_all
  then have "caricaDati (Some fC) (Some fI) altri = (True, clienti)"
    by (simp add: caricaDati_def lI base)
  with salva show ?thesis by simp
qed

text \<open>The scenario of the spec: one customer with one interaction, and the two files.\<close>

theorem C1_salva_carica_witness:
  "distinct (map codiceFiscale
     [aggiungiInterazione
        (nuovoCliente ''Anna'' ''Rossi'' ''a@x.it'' ''000'' ''Via Roma'' ''RSSANN80A01H501Z''
           ''01/01/1980'')
        (nuovaInterazione ''01/06/2024'' ''10:00'' APPUNTAMENTO ''Checkup'' ''Luigi'' ''Booked'')])
   \<and> list_all cliente_pulito
     [aggiungiInterazione
        (nuovoCliente ''Anna'' ''Rossi'' ''a@x.it'' ''000'' ''Via Roma'' ''RSSANN80A01H501Z''
           ''01/01/1980'')
        (nuovaInterazione ''01/06/2024'' ''10:00'' APPUNTAMENTO ''Checkup'' ''Luigi'' ''Booked'')]
   \<and> salvaDati True True
     [aggiungiInterazione
        (nuovoCliente ''Anna'' ''Rossi'' ''a@x.it'' ''000'' ''Via Roma'' ''RSSANN80A01H501Z''
           ''01/01/1980'')
        (nuovaInterazione ''01/06/2024'' ''10:00'' APPUNTAMENTO ''Checkup'' ''Luigi'' ''Booked'')]
     (None, None)
     = (True,
        Some (''Anna|Rossi|a@x.it|000|Via Roma|RSSANN80A01H501Z|01/01/1980'' @ [CHR 0x0A]),
        Some (''RSSANN80A01H501Z|01/06/2024|10:00|Appuntamento|Checkup|Luigi|Booked''
              @ [CHR 0x0A]))
   \<and> caricaDati
        (Some (''Anna|Rossi|a@x.it|000|Via Roma|RSSANN80A01H501Z|01/01/1980'' @ [CHR 0x0A]))
        (Some (''RSSANN80A01H501Z|01/06/2024|10:00|Appuntamento|Checkup|Luigi|Booked''
               @ [CHR 0x0A]))
        []
     = (True,
        [aggiungiInterazione
          (nuovoCliente ''Anna'' ''Rossi'' ''a@x.it'' ''000'' ''Via Roma'' ''RSSANN80A01H501Z''
             ''01/01/1980'')
          (nuovaInterazione ''01/06/2024'' ''10:00'' APPUNTAMENTO ''Checkup'' ''Luigi'' ''Booked'')])"
proof -
  let ?S = "[aggiungiInterazione
        (nuovoCliente ''Anna'' ''Rossi'' ''a@x.it'' ''000'' ''Via Roma'' ''RSSANN80A01H501Z''
           ''01/01/1980'')
        (nuovaInterazione ''01/06/2024'' ''10:00'' APPUNTAMENTO ''Checkup'' ''Luigi'' ''Booked'')]"
  have d: "distinct (map codiceFiscale ?S)" by simp
  have p: "list_all cliente_pulito ?S"
    by (simp add: cliente_pulito_def interazione_pulita_def campo_pulito_def
          aggiungiInterazione_def nuovoCliente_def nuovaInterazione_def)
  have s: "salvaDati True True ?S (None, None)
     = (True,
        Some (''Anna|Rossi|a@x.it|000|Via Roma|RSSANN80A01H501Z|01/01/1980'' @ [CHR 0x0A]),
        Some (''RSSANN80A01H501Z|01/06/2024|10:00|Appuntamento|Checkup|Luigi|Booked''
              @ [CHR 0x0A]))"
    by (simp add: salvaDati_def riga_cliente_def riga_interazione_def getTipoStringa_def
          aggiungiInterazione_def nuovoCliente_def nuovaInterazione_def)
  from C1_salva_carica [OF d p, of "(None, None)" "[]"]
  have "caricaDati
        (Some (''Anna|Rossi|a@x.it|000|Via Roma|RSSANN80A01H501Z|01/01/1980'' @ [CHR 0x0A]))
        (Some (''RSSANN80A01H501Z|01/06/2024|10:00|Appuntamento|Checkup|Luigi|Booked''
               @ [CHR 0x0A]))
        [] = (True, ?S)"
    unfolding s by simp
  with d p s show ?thesis by simp
qed

end
